theory Spec2Isabelle
  imports Complex_Main "HOL-Library.Multiset"
begin

section \<open>Data model of the importer (model\_obj.h)\<close>

text \<open>
  The C++ \<open>float\<close> is kept as a type parameter \<open>'f\<close> wherever the code only copies or
  compares values (the vertex welder compares records with \<open>memcmp\<close>, so equality on
  \<open>'f\<close> stands for equality of bit patterns).  Where the code computes with floats the
  parameter is instantiated with \<open>float\<close> below: a real number, or \<open>None\<close> for a value
  that is not a number.  That instance idealises rounding, overflow and underflow
  (finite results are exact) and keeps the one exceptional behaviour the geometric
  passes can reach from finite data: \<open>1.0f / 0.0f\<close> is infinite and \<open>0.0f\<close> times it is
  not a number.

  The C++ \<open>int\<close> is modelled as \<open>int\<close>; no claim below depends on 32-bit overflow.
\<close>

type_synonym float = "real option"

record 'f Material =
  ambient :: "'f \<times> 'f \<times> 'f \<times> 'f"
  diffuse :: "'f \<times> 'f \<times> 'f \<times> 'f"
  specular :: "'f \<times> 'f \<times> 'f \<times> 'f"
  shininess :: 'f
  alpha :: 'f
  name :: string
  colorMapFilename :: string
  bumpMapFilename :: string

record 'f Vertex =
  position :: "'f \<times> 'f \<times> 'f"
  texCoord :: "'f \<times> 'f"
  normal :: "'f \<times> 'f \<times> 'f"
  tangent :: "'f \<times> 'f \<times> 'f \<times> 'f"
  bitangent :: "'f \<times> 'f \<times> 'f"

text \<open>
  \<open>Mesh::pMaterial\<close> points into \<open>m_materials\<close>; the model keeps the index the pointer
  was taken at, and \<open>None\<close> for the null pointer of a value-initialised \<open>Mesh\<close>.
\<close>

record Mesh =
  startIndex :: int
  triangleCount :: int
  pMaterial :: "int option"

record 'f Model =
  m_hasPositions :: bool
  m_hasTextureCoords :: bool
  m_hasNormals :: bool
  m_hasTangents :: bool
  m_numberOfVertexCoords :: int
  m_numberOfTextureCoords :: int
  m_numberOfNormals :: int
  m_numberOfTriangles :: int
  m_numberOfMaterials :: int
  m_numberOfMeshes :: int
  m_center :: "'f \<times> 'f \<times> 'f"
  m_width :: 'f
  m_height :: 'f
  m_length :: 'f
  m_radius :: 'f
  m_directoryPath :: string
  m_meshes :: "Mesh list"
  m_materials :: "'f Material list"
  m_vertexBuffer :: "'f Vertex list"
  m_indexBuffer :: "int list"
  m_attributeBuffer :: "int list"
  m_vertexCoords :: "'f list"
  m_textureCoords :: "'f list"
  m_normals :: "'f list"
  m_materialCache :: "string \<rightharpoonup> int"
  m_vertexCache :: "int \<rightharpoonup> int list"

subsection \<open>Float operations of the \<open>float\<close> instance\<close>

definition fneg :: "float \<Rightarrow> float" where
  "fneg a = map_option uminus a"

section \<open>Model::reverseWinding\<close>





definition emptyModel :: "'f \<Rightarrow> 'f Model" where
  "emptyModel z =
     \<lparr>m_hasPositions = False, m_hasTextureCoords = False, m_hasNormals = False,
      m_hasTangents = False, m_numberOfVertexCoords = 0, m_numberOfTextureCoords = 0,
      m_numberOfNormals = 0, m_numberOfTriangles = 0, m_numberOfMaterials = 0,
      m_numberOfMeshes = 0, m_center = (z, z, z), m_width = z, m_height = z,
      m_length = z, m_radius = z, m_directoryPath = [], m_meshes = [],
      m_materials = [], m_vertexBuffer = [], m_indexBuffer = [],
      m_attributeBuffer = [], m_vertexCoords = [], m_textureCoords = [],
      m_normals = [], m_materialCache = Map.empty, m_vertexCache = Map.empty\<rparr>"

section \<open>Model::addVertex (the vertex welder)\<close>

text \<open>
  \<open>m_vertexCache\<close> maps a source position index (\<open>hash\<close>) to the vertex-buffer
  indices emitted for it, in insertion order.  \<open>memcmp\<close> over the whole \<open>Vertex\<close> is
  equality of the record (all five fields; a \<open>Vertex\<close> is twelve floats and has no
  padding).  The scan of a bucket stops at the first index whose vertex compares
  equal, which is \<open>find\<close>.
\<close>

definition addVertex :: "int \<Rightarrow> 'f Vertex \<Rightarrow> 'f Model \<Rightarrow> int \<times> 'f Model" where
  "addVertex hash pVertex m =
     (case m_vertexCache m hash of
        None \<Rightarrow>
          (let index = int (length (m_vertexBuffer m))
           in (index, m\<lparr>m_vertexBuffer := m_vertexBuffer m @ [pVertex],
                         m_vertexCache := (m_vertexCache m)(hash \<mapsto> [index])\<rparr>))
      | Some vertices \<Rightarrow>
          (case find (\<lambda>i. m_vertexBuffer m ! nat i = pVertex) vertices of
             Some index \<Rightarrow> (index, m)
           | None \<Rightarrow>
               (let index = int (length (m_vertexBuffer m))
                in (index, m\<lparr>m_vertexBuffer := m_vertexBuffer m @ [pVertex],
                              m_vertexCache := (m_vertexCache m)(hash \<mapsto> vertices @ [index])\<rparr>))))"

text \<open>A sequence of welder calls, with the index each call returned.\<close>

fun addVertices :: "(int \<times> 'f Vertex) list \<Rightarrow> 'f Model \<Rightarrow> int list \<times> 'f Model" where
  "addVertices [] m = ([], m)"
| "addVertices ((h, v) # calls) m =
     (case addVertex h v m of (i, m1) \<Rightarrow>
      case addVertices calls m1 of (is, m2) \<Rightarrow> (i # is, m2))"

text \<open>The indices recorded for a source index, and the welder's invariant: every
  recorded index is a position of the vertex buffer.\<close>

definition bucket :: "'f Model \<Rightarrow> int \<Rightarrow> int list" where
  "bucket m h = (case m_vertexCache m h of None \<Rightarrow> [] | Some vs \<Rightarrow> vs)"

definition cacheInv :: "'f Model \<Rightarrow> bool" where
  "cacheInv m =
     (\<forall>h vs. m_vertexCache m h = Some vs \<longrightarrow>
        (\<forall>i \<in> set vs. 0 \<le> i \<and> i < int (length (m_vertexBuffer m))))"

text \<open>Index \<open>i\<close> is what a call for source index \<open>h\<close> and record \<open>v\<close> finds.\<close>

definition welded :: "'f Model \<Rightarrow> int \<Rightarrow> 'f Vertex \<Rightarrow> int \<Rightarrow> bool" where
  "welded m h v i \<longleftrightarrow> find (\<lambda>j. m_vertexBuffer m ! nat j = v) (bucket m h) = Some i"

section \<open>Model::bounds\<close>

definition flt :: "float \<Rightarrow> float \<Rightarrow> bool" where
  "flt a b = (case (a, b) of (Some x, Some y) \<Rightarrow> x < y | _ \<Rightarrow> False)"

definition fadd :: "float \<Rightarrow> float \<Rightarrow> float" where
  "fadd a b = (case (a, b) of (Some x, Some y) \<Rightarrow> Some (x + y) | _ \<Rightarrow> None)"

definition fsub :: "float \<Rightarrow> float \<Rightarrow> float" where
  "fsub a b = (case (a, b) of (Some x, Some y) \<Rightarrow> Some (x - y) | _ \<Rightarrow> None)"

definition fmul :: "float \<Rightarrow> float \<Rightarrow> float" where
  "fmul a b = (case (a, b) of (Some x, Some y) \<Rightarrow> Some (x * y) | _ \<Rightarrow> None)"

text \<open>Division by zero leaves the numbers (\<open>1.0f / 0.0f\<close> is infinite, \<open>0.0f / 0.0f\<close>
  is not a number).\<close>

definition fdiv :: "float \<Rightarrow> float \<Rightarrow> float" where
  "fdiv a b =
     (case (a, b) of
        (Some x, Some y) \<Rightarrow> if y = 0 then None else Some (x / y)
      | _ \<Rightarrow> None)"

definition fsqrt :: "float \<Rightarrow> float" where
  "fsqrt a = (case a of Some x \<Rightarrow> if x < 0 then None else Some (sqrt x) | None \<Rightarrow> None)"

text \<open>\<open>std::max(a, b)\<close> is \<open>(a < b) ? b : a\<close>.\<close>

definition fmax :: "float \<Rightarrow> float \<Rightarrow> float" where
  "fmax a b = (if flt a b then b else a)"

text \<open>\<open>std::numeric_limits<float>::min()\<close> is the smallest positive normalised float,
  \<open>2\<^sup>-\<^sup>1\<^sup>2\<^sup>6\<close>; \<open>max()\<close> is the largest finite float.\<close>

definition FLT_MIN :: float where
  "FLT_MIN = Some (1 / 2 ^ 126)"

definition FLT_MAX :: float where
  "FLT_MAX = Some (2 ^ 128 - 2 ^ 104)"

text \<open>One step of the loop of \<open>bounds\<close> on the running
  \<open>(xMin, xMax, yMin, yMax, zMin, zMax)\<close>.\<close>

definition boundsStep ::
  "float Vertex \<Rightarrow> float \<times> float \<times> float \<times> float \<times> float \<times> float
     \<Rightarrow> float \<times> float \<times> float \<times> float \<times> float \<times> float" where
  "boundsStep vtx acc =
     (case acc of (xMin, xMax, yMin, yMax, zMin, zMax) \<Rightarrow>
      case position vtx of (x, y, z) \<Rightarrow>
        (if flt x xMin then x else xMin, if flt xMax x then x else xMax,
         if flt y yMin then y else yMin, if flt yMax y then y else yMax,
         if flt z zMin then z else zMin, if flt zMax z then z else zMax))"

definition boundsMinMax ::
  "float Vertex list \<Rightarrow> float \<times> float \<times> float \<times> float \<times> float \<times> float" where
  "boundsMinMax vb = fold boundsStep vb (FLT_MAX, FLT_MIN, FLT_MAX, FLT_MIN, FLT_MAX, FLT_MIN)"

text \<open>The result is \<open>(center, width, height, length, radius)\<close>.\<close>

definition bounds ::
  "float Vertex list \<Rightarrow> (float \<times> float \<times> float) \<times> float \<times> float \<times> float \<times> float" where
  "bounds vb =
     (case boundsMinMax vb of (xMin, xMax, yMin, yMax, zMin, zMax) \<Rightarrow>
        (let width = fsub xMax xMin; height = fsub yMax yMin; length = fsub zMax zMin
         in ((fdiv (fadd xMin xMax) (Some 2), fdiv (fadd yMin yMax) (Some 2),
              fdiv (fadd zMin zMax) (Some 2)),
             width, height, length, fmax (fmax width height) length)))"

text \<open>A vertex as Pass 2 builds it from a position alone: every other field zero.\<close>

definition vertexAt :: "real \<Rightarrow> real \<Rightarrow> real \<Rightarrow> float Vertex" where
  "vertexAt x y z =
     \<lparr>position = (Some x, Some y, Some z), texCoord = (Some 0, Some 0),
      normal = (Some 0, Some 0, Some 0), tangent = (Some 0, Some 0, Some 0, Some 0),
      bitangent = (Some 0, Some 0, Some 0)\<rparr>"

text \<open>The material \<open>importGeometryFirstPass\<close> adds when the file declares none.\<close>

definition defaultMaterial :: "float Material" where
  "defaultMaterial =
     \<lparr>ambient = (Some (2 / 10), Some (2 / 10), Some (2 / 10), Some 1),
      diffuse = (Some (8 / 10), Some (8 / 10), Some (8 / 10), Some 1),
      specular = (Some 0, Some 0, Some 0, Some 1),
      shininess = Some 0, alpha = Some 1, name = ''default'',
      colorMapFilename = [], bumpMapFilename = []\<rparr>"

section \<open>Model::buildMeshes\<close>

text \<open>\<open>std::vector::resize\<close>: the first \<open>n\<close> elements are kept, new ones are
  value-initialised (for a \<open>Mesh\<close>: zero counts and a null material pointer).\<close>

definition resize :: "nat \<Rightarrow> 'a \<Rightarrow> 'a list \<Rightarrow> 'a list" where
  "resize n d xs = take n xs @ replicate (n - length xs) d"

definition zeroMesh :: Mesh where
  "zeroMesh = \<lparr>startIndex = 0, triangleCount = 0, pMaterial = None\<rparr>"

text \<open>The first loop: the number of changes of the material id along the attribute
  buffer, starting from the id \<open>-1\<close>.\<close>

fun countMeshes :: "int list \<Rightarrow> int \<Rightarrow> int \<Rightarrow> int" where
  "countMeshes [] materialId numMeshes = numMeshes"
| "countMeshes (a # as) materialId numMeshes =
     (if a \<noteq> materialId then countMeshes as a (numMeshes + 1)
      else countMeshes as materialId numMeshes)"

text \<open>
  The second loop, over the attributes from triangle \<open>i\<close> on.  \<open>pMesh\<close> is the position
  in \<open>m_meshes\<close> the pointer refers to (\<open>None\<close>: the null pointer it starts as).  The
  result is \<open>None\<close> where the code would index \<open>m_meshes\<close> or \<open>m_materials\<close> out of range
  or increment through the null pointer.
\<close>

fun fillMeshes ::
  "nat \<Rightarrow> int list \<Rightarrow> nat \<Rightarrow> Mesh list \<Rightarrow> nat \<Rightarrow> int \<Rightarrow> nat option \<Rightarrow> Mesh list option" where
  "fillMeshes nmat [] i meshes numMeshes materialId pMesh = Some meshes"
| "fillMeshes nmat (a # as) i meshes numMeshes materialId pMesh =
     (if a \<noteq> materialId then
        (if numMeshes < length meshes \<and> 0 \<le> a \<and> nat a < nmat then
           fillMeshes nmat as (Suc i)
             (meshes[numMeshes := (meshes ! numMeshes)
                \<lparr>startIndex := int i * 3,
                 triangleCount := triangleCount (meshes ! numMeshes) + 1,
                 pMaterial := Some a\<rparr>])
             (Suc numMeshes) a (Some numMeshes)
         else None)
      else
        (case pMesh of
           None \<Rightarrow> None
         | Some k \<Rightarrow>
             fillMeshes nmat as (Suc i)
               (meshes[k := (meshes ! k)\<lparr>triangleCount := triangleCount (meshes ! k) + 1\<rparr>])
               numMeshes materialId pMesh))"

text \<open>The alpha a mesh's material pointer leads to (\<open>fillMeshes\<close> leaves no null pointer
  and no index outside \<open>m_materials\<close>).\<close>

definition meshAlpha :: "float Material list \<Rightarrow> Mesh \<Rightarrow> float" where
  "meshAlpha mats mesh = (case pMaterial mesh of None \<Rightarrow> None | Some k \<Rightarrow> alpha (mats ! nat k))"

definition MeshCompFunc :: "float Material list \<Rightarrow> Mesh \<Rightarrow> Mesh \<Rightarrow> bool" where
  "MeshCompFunc mats lhs rhs = flt (meshAlpha mats rhs) (meshAlpha mats lhs)"

text \<open>
  \<open>std::sort\<close> returns some permutation in which no element comes before one that
  the comparison puts strictly first; which one, among elements that compare equal,
  is not specified.  The model takes the permutation insertion sort produces; what is
  proved of it below (order, and which meshes the list holds) does not depend on that
  choice.
\<close>

fun insertSorted :: "('a \<Rightarrow> 'a \<Rightarrow> bool) \<Rightarrow> 'a \<Rightarrow> 'a list \<Rightarrow> 'a list" where
  "insertSorted cmp x [] = [x]"
| "insertSorted cmp x (y # ys) =
     (if cmp y x then y # insertSorted cmp x ys else x # y # ys)"

definition stdSort :: "('a \<Rightarrow> 'a \<Rightarrow> bool) \<Rightarrow> 'a list \<Rightarrow> 'a list" where
  "stdSort cmp xs = foldr (insertSorted cmp) xs []"

definition buildMeshes :: "float Model \<Rightarrow> float Model option" where
  "buildMeshes m =
     (let numMeshes = countMeshes (m_attributeBuffer m) (-1) 0;
          meshes = resize (nat numMeshes) zeroMesh (m_meshes m)
      in case fillMeshes (length (m_materials m)) (m_attributeBuffer m) 0 meshes 0 (-1) None of
           None \<Rightarrow> None
         | Some meshes' \<Rightarrow>
             Some (m\<lparr>m_numberOfMeshes := numMeshes,
                     m_meshes := stdSort (MeshCompFunc (m_materials m)) meshes'\<rparr>))"

definition nonIncreasingAlpha :: "float Material list \<Rightarrow> Mesh list \<Rightarrow> bool" where
  "nonIncreasingAlpha mats meshes =
     sorted_wrt (\<lambda>a b. case (meshAlpha mats a, meshAlpha mats b) of
                          (Some x, Some y) \<Rightarrow> y \<le> x | _ \<Rightarrow> False) meshes"

text \<open>The triangles a mesh draws, and what it is for a mesh to be a maximal run of the
  attribute buffer: it starts at a triangle boundary, its triangles all carry its
  material, and the triangle before it and the triangle after it (where there is
  one) carry another.\<close>

definition trianglesOf :: "Mesh \<Rightarrow> nat list" where
  "trianglesOf mesh =
     [nat (startIndex mesh div 3) ..< nat (startIndex mesh div 3) + nat (triangleCount mesh)]"

definition isMaximalRun :: "int list \<Rightarrow> Mesh \<Rightarrow> bool" where
  "isMaximalRun attr mesh =
     (case pMaterial mesh of
        None \<Rightarrow> False
      | Some a \<Rightarrow>
          (let s = nat (startIndex mesh div 3); c = nat (triangleCount mesh)
           in startIndex mesh = int s * 3 \<and> 0 < triangleCount mesh \<and> s + c \<le> length attr
              \<and> take c (drop s attr) = replicate c a
              \<and> (s = 0 \<or> attr ! (s - 1) \<noteq> a)
              \<and> (s + c = length attr \<or> attr ! (s + c) \<noteq> a)))"

text \<open>The runs of an attribute list whose first triangle has number \<open>i\<close>, as meshes.\<close>

function meshRuns :: "nat \<Rightarrow> int list \<Rightarrow> Mesh list" where
  "meshRuns i [] = []"
| "meshRuns i (a # as) =
     \<lparr>startIndex = int i * 3, triangleCount = 1 + int (length (takeWhile (\<lambda>x. x = a) as)),
      pMaterial = Some a\<rparr>
     # meshRuns (Suc i + length (takeWhile (\<lambda>x. x = a) as)) (dropWhile (\<lambda>x. x = a) as)"
  by pat_completeness auto
termination
  by (relation "measure (\<lambda>(i, as). length as)") (auto simp: length_dropWhile_le less_Suc_eq_le)

section \<open>Model::generateNormals\<close>

text \<open>The source writes every vector operation out by component; the helpers below
  are those component-wise expressions, in the source's order of operations.\<close>

type_synonym float3 = "float \<times> float \<times> float"

definition sub3 :: "float3 \<Rightarrow> float3 \<Rightarrow> float3" where
  "sub3 a b = (case a of (a0, a1, a2) \<Rightarrow> case b of (b0, b1, b2) \<Rightarrow>
     (fsub a0 b0, fsub a1 b1, fsub a2 b2))"

definition add3 :: "float3 \<Rightarrow> float3 \<Rightarrow> float3" where
  "add3 a b = (case a of (a0, a1, a2) \<Rightarrow> case b of (b0, b1, b2) \<Rightarrow>
     (fadd a0 b0, fadd a1 b1, fadd a2 b2))"

definition scale3 :: "float3 \<Rightarrow> float \<Rightarrow> float3" where
  "scale3 a s = (case a of (a0, a1, a2) \<Rightarrow> (fmul a0 s, fmul a1 s, fmul a2 s))"

definition dot3 :: "float3 \<Rightarrow> float3 \<Rightarrow> float" where
  "dot3 a b = (case a of (a0, a1, a2) \<Rightarrow> case b of (b0, b1, b2) \<Rightarrow>
     fadd (fadd (fmul a0 b0) (fmul a1 b1)) (fmul a2 b2))"

definition cross3 :: "float3 \<Rightarrow> float3 \<Rightarrow> float3" where
  "cross3 a b = (case a of (a0, a1, a2) \<Rightarrow> case b of (b0, b1, b2) \<Rightarrow>
     (fsub (fmul a1 b2) (fmul a2 b1),
      fsub (fmul a2 b0) (fmul a0 b2),
      fsub (fmul a0 b1) (fmul a1 b0)))"

text \<open>The three indices of triangle \<open>i\<close>, or \<open>None\<close> where the code would read outside
  the index buffer or take a vertex outside the vertex buffer.\<close>

definition triangleAt :: "int list \<Rightarrow> nat \<Rightarrow> nat \<Rightarrow> (nat \<times> nat \<times> nat) option" where
  "triangleAt ib nverts i =
     (if i * 3 + 2 < length ib then
        (let t0 = ib ! (i * 3); t1 = ib ! (i * 3 + 1); t2 = ib ! (i * 3 + 2)
         in if 0 \<le> t0 \<and> nat t0 < nverts \<and> 0 \<le> t1 \<and> nat t1 < nverts
               \<and> 0 \<le> t2 \<and> nat t2 < nverts
            then Some (nat t0, nat t1, nat t2) else None)
      else None)"

definition zeroNormal :: "float Vertex \<Rightarrow> float Vertex" where
  "zeroNormal v = v\<lparr>normal := (Some 0, Some 0, Some 0)\<rparr>"

definition addNormal :: "float3 \<Rightarrow> float Vertex \<Rightarrow> float Vertex" where
  "addNormal n v = v\<lparr>normal := add3 (normal v) n\<rparr>"

text \<open>The body of the triangle loop.  The three vertices are updated one after the
  other through their pointers, so a vertex named twice by the triangle receives
  the face normal twice.\<close>

definition accumulateNormal :: "float Vertex list \<Rightarrow> nat \<times> nat \<times> nat \<Rightarrow> float Vertex list" where
  "accumulateNormal vb t =
     (case t of (t0, t1, t2) \<Rightarrow>
        (let edge1 = sub3 (position (vb ! t1)) (position (vb ! t0));
             edge2 = sub3 (position (vb ! t2)) (position (vb ! t0));
             n = cross3 edge1 edge2;
             vb1 = vb[t0 := addNormal n (vb ! t0)];
             vb2 = vb1[t1 := addNormal n (vb1 ! t1)]
         in vb2[t2 := addNormal n (vb2 ! t2)]))"

fun accumulateNormals :: "int list \<Rightarrow> nat list \<Rightarrow> float Vertex list \<Rightarrow> float Vertex list option" where
  "accumulateNormals ib [] vb = Some vb"
| "accumulateNormals ib (i # is) vb =
     (case triangleAt ib (length vb) i of
        None \<Rightarrow> None
      | Some t \<Rightarrow> accumulateNormals ib is (accumulateNormal vb t))"

text \<open>The vertex buffer after the first two loops: normals zeroed, then the face
  normal of every triangle added to its three vertices.\<close>

definition accumulatedNormals :: "float Model \<Rightarrow> float Vertex list option" where
  "accumulatedNormals m =
     accumulateNormals (m_indexBuffer m) [0 ..< nat (m_numberOfTriangles m)]
       (map zeroNormal (m_vertexBuffer m))"

definition normalizeNormal :: "float Vertex \<Rightarrow> float Vertex" where
  "normalizeNormal v =
     (let length = fdiv (Some 1) (fsqrt (dot3 (normal v) (normal v)))
      in v\<lparr>normal := scale3 (normal v) length\<rparr>)"

definition generateNormals :: "float Model \<Rightarrow> float Model option" where
  "generateNormals m =
     (case accumulatedNormals m of
        None \<Rightarrow> None
      | Some vb \<Rightarrow> Some (m\<lparr>m_vertexBuffer := map normalizeNormal vb, m_hasNormals := True\<rparr>))"

section \<open>Model::generateTangents\<close>

definition fabs :: "float \<Rightarrow> float" where
  "fabs a = map_option abs a"

definition zeroTangent :: "float Vertex \<Rightarrow> float Vertex" where
  "zeroTangent v = v\<lparr>tangent := (Some 0, Some 0, Some 0, Some 0),
                     bitangent := (Some 0, Some 0, Some 0)\<rparr>"

text \<open>The determinant of the texture-coordinate edges of a triangle, and the tangent
  and bitangent of the triangle, from its three vertices.\<close>

definition texDet :: "float Vertex \<Rightarrow> float Vertex \<Rightarrow> float Vertex \<Rightarrow> float" where
  "texDet v0 v1 v2 =
     (let texEdge1 = (fsub (fst (texCoord v1)) (fst (texCoord v0)),
                      fsub (snd (texCoord v1)) (snd (texCoord v0)));
          texEdge2 = (fsub (fst (texCoord v2)) (fst (texCoord v0)),
                      fsub (snd (texCoord v2)) (snd (texCoord v0)))
      in fsub (fmul (fst texEdge1) (snd texEdge2)) (fmul (fst texEdge2) (snd texEdge1)))"

definition triangleTangent ::
  "float Vertex \<Rightarrow> float Vertex \<Rightarrow> float Vertex \<Rightarrow> float3 \<times> float3" where
  "triangleTangent v0 v1 v2 =
     (let edge1 = sub3 (position v1) (position v0);
          edge2 = sub3 (position v2) (position v0);
          texEdge1 = (fsub (fst (texCoord v1)) (fst (texCoord v0)),
                      fsub (snd (texCoord v1)) (snd (texCoord v0)));
          texEdge2 = (fsub (fst (texCoord v2)) (fst (texCoord v0)),
                      fsub (snd (texCoord v2)) (snd (texCoord v0)));
          det = texDet v0 v1 v2
      in if flt (fabs det) (Some (1 / 10 ^ 6)) then
           ((Some 1, Some 0, Some 0), (Some 0, Some 1, Some 0))
         else
           (let det' = fdiv (Some 1) det
            in (scale3 (sub3 (scale3 edge1 (snd texEdge2)) (scale3 edge2 (snd texEdge1))) det',
                scale3 (add3 (scale3 edge1 (fneg (fst texEdge2))) (scale3 edge2 (fst texEdge1))) det')))"

definition addTangent :: "float3 \<times> float3 \<Rightarrow> float Vertex \<Rightarrow> float Vertex" where
  "addTangent tb v =
     (case tangent v of (t0, t1, t2, t3) \<Rightarrow>
      case add3 (t0, t1, t2) (fst tb) of (s0, s1, s2) \<Rightarrow>
        v\<lparr>tangent := (s0, s1, s2, t3), bitangent := add3 (bitangent v) (snd tb)\<rparr>)"

definition accumulateTangent :: "float Vertex list \<Rightarrow> nat \<times> nat \<times> nat \<Rightarrow> float Vertex list" where
  "accumulateTangent vb t =
     (case t of (t0, t1, t2) \<Rightarrow>
        (let tb = triangleTangent (vb ! t0) (vb ! t1) (vb ! t2);
             vb1 = vb[t0 := addTangent tb (vb ! t0)];
             vb2 = vb1[t1 := addTangent tb (vb1 ! t1)]
         in vb2[t2 := addTangent tb (vb2 ! t2)]))"

fun accumulateTangents :: "int list \<Rightarrow> nat list \<Rightarrow> float Vertex list \<Rightarrow> float Vertex list option" where
  "accumulateTangents ib [] vb = Some vb"
| "accumulateTangents ib (i # is) vb =
     (case triangleAt ib (length vb) i of
        None \<Rightarrow> None
      | Some t \<Rightarrow> accumulateTangents ib is (accumulateTangent vb t))"

definition accumulatedTangents :: "float Model \<Rightarrow> float Vertex list option" where
  "accumulatedTangents m =
     accumulateTangents (m_indexBuffer m) [0 ..< nat (m_numberOfTriangles m)]
       (map zeroTangent (m_vertexBuffer m))"

text \<open>The tangent the third loop leaves before it scales it: the accumulated tangent
  made orthogonal to the normal.\<close>

definition orthoTangent :: "float Vertex \<Rightarrow> float3" where
  "orthoTangent v =
     (case tangent v of (t0, t1, t2, t3) \<Rightarrow>
        sub3 (t0, t1, t2) (scale3 (normal v) (dot3 (normal v) (t0, t1, t2))))"

definition finishTangent :: "float Vertex \<Rightarrow> float Vertex" where
  "finishTangent v =
     (let t = orthoTangent v;
          length = fdiv (Some 1) (fsqrt (dot3 t t));
          t' = scale3 t length;
          b = cross3 (normal v) t';
          bDotB = dot3 b (bitangent v)
      in case t' of (u0, u1, u2) \<Rightarrow>
           v\<lparr>tangent := (u0, u1, u2, if flt bDotB (Some 0) then Some 1 else Some (- 1)),
             bitangent := b\<rparr>)"

definition generateTangents :: "float Model \<Rightarrow> float Model option" where
  "generateTangents m =
     (case accumulatedTangents m of
        None \<Rightarrow> None
      | Some vb \<Rightarrow> Some (m\<lparr>m_vertexBuffer := map finishTangent vb, m_hasTangents := True\<rparr>))"







section \<open>The C library's scanning functions\<close>

text \<open>
  A file being read is the list of its unread characters.  Every function returns
  what it read and the characters left.  The 256-byte \<open>buffer\<close> of the source holds
  any token or line of up to 255 characters; longer tokens (which overflow it) are
  outside the model.
\<close>

definition isspace :: "char \<Rightarrow> bool" where
  "isspace c = (c \<in> set [CHR '' '', CHR 0x09, CHR 0x0A, CHR 0x0B, CHR 0x0C, CHR 0x0D])"

definition isdigit :: "char \<Rightarrow> bool" where
  "isdigit c = (c \<in> set ''0123456789'')"

definition digitsValue :: "string \<Rightarrow> nat" where
  "digitsValue ds = foldl (\<lambda>a c. 10 * a + (of_char c - 48)) 0 ds"

text \<open>\<open>fscanf(pFile, "%s", buffer)\<close>: white space is skipped, then the characters up to
  the next white space are the token.  \<open>None\<close> is the return value \<open>EOF\<close>.\<close>

definition scanString :: "string \<Rightarrow> (string \<times> string) option" where
  "scanString s =
     (let s' = dropWhile isspace s
      in if s' = [] then None
         else Some (takeWhile (\<lambda>c. \<not> isspace c) s', dropWhile (\<lambda>c. \<not> isspace c) s'))"

text \<open>\<open>fgets(buffer, sizeof(buffer), pFile)\<close>: the characters up to and including the
  next newline, at most 255 of them.  \<open>None\<close> is the null pointer returned at the end
  of the file, where the buffer is left as it was.\<close>

definition fgets :: "string \<Rightarrow> (string \<times> string) option" where
  "fgets s =
     (if s = [] then None
      else (let n = min 255 (Suc (length (takeWhile (\<lambda>c. c \<noteq> CHR 0x0A) s)))
            in Some (take n s, drop n s)))"

text \<open>The rest of the file after the \<open>fgets\<close> that skips a line.\<close>

definition skipLine :: "string \<Rightarrow> string" where
  "skipLine s = (case fgets s of None \<Rightarrow> s | Some (line, rest) \<Rightarrow> rest)"

text \<open>The conversion \<open>%d\<close>: white space is skipped, then an optional sign and decimal
  digits are read.  Without a digit the conversion fails; the sign, if one was read,
  stays consumed.\<close>

definition scanInt :: "string \<Rightarrow> int option \<times> string" where
  "scanInt s =
     (let s1 = dropWhile isspace s;
          neg = (s1 \<noteq> [] \<and> hd s1 = CHR ''-'');
          s2 = (if s1 \<noteq> [] \<and> (hd s1 = CHR ''-'' \<or> hd s1 = CHR ''+'') then tl s1 else s1);
          ds = takeWhile isdigit s2
      in if ds = [] then (None, s2)
         else (Some (if neg then - int (digitsValue ds) else int (digitsValue ds)),
               dropWhile isdigit s2))"

text \<open>The face formats \<open>"%d"\<close>, \<open>"%d/%d"\<close>, \<open>"%d//%d"\<close> and \<open>"%d/%d/%d"\<close> are sequences of
  the conversion \<open>%d\<close> and the literal \<open>/\<close>.  Scanning stops at the first directive that
  fails; the result is the values assigned so far, in order, and the rest.\<close>

datatype directive = D | Slash

fun scanFmt :: "directive list \<Rightarrow> string \<Rightarrow> int list \<times> string" where
  "scanFmt [] s = ([], s)"
| "scanFmt (D # fmt) s =
     (case scanInt s of
        (None, r) \<Rightarrow> ([], r)
      | (Some n, r) \<Rightarrow> (case scanFmt fmt r of (ns, r') \<Rightarrow> (n # ns, r')))"
| "scanFmt (Slash # fmt) s =
     (case s of
        [] \<Rightarrow> ([], [])
      | c # r \<Rightarrow> if c = CHR ''/'' then scanFmt fmt r else ([], s))"

text \<open>The index-record forms of a face, in the order the source tests for them.\<close>

datatype form = PosNormal | PosTexCoordNormal | PosTexCoord | Pos

fun formatOf :: "form \<Rightarrow> directive list" where
  "formatOf PosNormal = [D, Slash, Slash, D]"
| "formatOf PosTexCoordNormal = [D, Slash, D, Slash, D]"
| "formatOf PosTexCoord = [D, Slash, D]"
| "formatOf Pos = [D]"

text \<open>\<open>strstr(buffer, word)\<close> as a truth value: \<open>word\<close> occurs in \<open>buffer\<close>.\<close>

fun startsWith :: "string \<Rightarrow> string \<Rightarrow> bool" where
  "startsWith s [] = True"
| "startsWith [] (c # w) = False"
| "startsWith (a # s) (c # w) = (a = c \<and> startsWith s w)"

fun strstr :: "string \<Rightarrow> string \<Rightarrow> bool" where
  "strstr [] w = (w = [])"
| "strstr (a # s) w = (startsWith (a # s) w \<or> strstr s w)"

text \<open>The branch the source takes on the first corner of a face.\<close>

definition faceForm :: "string \<Rightarrow> form" where
  "faceForm buffer =
     (if strstr buffer ''//'' then PosNormal
      else if length (fst (scanFmt (formatOf PosTexCoordNormal) buffer)) = 3 then PosTexCoordNormal
      else if length (fst (scanFmt (formatOf PosTexCoord) buffer)) = 2 then PosTexCoord
      else Pos)"

text \<open>
  The conversion \<open>%f\<close>, for decimal numbers: white space, an optional sign, digits with
  an optional fraction (at least one digit in all), and an optional exponent.  The
  value is the decimal number itself (no rounding to a float).  The words \<open>inf\<close> and
  \<open>nan\<close> and hexadecimal numbers, which \<open>%f\<close> also reads, are outside the model, and an
  \<open>e\<close> that no digits follow is not read.
\<close>

definition scanExponent :: "string \<Rightarrow> int \<times> string" where
  "scanExponent s =
     (if s \<noteq> [] \<and> (hd s = CHR ''e'' \<or> hd s = CHR ''E'') then
        (let s1 = tl s;
             neg = (s1 \<noteq> [] \<and> hd s1 = CHR ''-'');
             s2 = (if s1 \<noteq> [] \<and> (hd s1 = CHR ''-'' \<or> hd s1 = CHR ''+'') then tl s1 else s1);
             ds = takeWhile isdigit s2
         in if ds = [] then (0, s)
            else (if neg then - int (digitsValue ds) else int (digitsValue ds), dropWhile isdigit s2))
      else (0, s))"

definition scanFloat :: "string \<Rightarrow> float option \<times> string" where
  "scanFloat s =
     (let s1 = dropWhile isspace s;
          neg = (s1 \<noteq> [] \<and> hd s1 = CHR ''-'');
          s2 = (if s1 \<noteq> [] \<and> (hd s1 = CHR ''-'' \<or> hd s1 = CHR ''+'') then tl s1 else s1);
          ip = takeWhile isdigit s2;
          s3 = dropWhile isdigit s2;
          fp = (if s3 \<noteq> [] \<and> hd s3 = CHR ''.'' then takeWhile isdigit (tl s3) else []);
          s4 = (if s3 \<noteq> [] \<and> hd s3 = CHR ''.'' then dropWhile isdigit (tl s3) else s3)
      in if ip = [] \<and> fp = [] then (None, s4)
         else (case scanExponent s4 of (ex, s5) \<Rightarrow>
                 (let mag = (real (digitsValue ip) + real (digitsValue fp) / 10 ^ length fp)
                            * (if 0 \<le> ex then 10 ^ nat ex else 1 / 10 ^ nat (- ex))
                  in (Some (Some (if neg then - mag else mag)), s5))))"

text \<open>\<open>fscanf(pFile, "%f %f %f", ...)\<close> and its shorter forms: up to \<open>n\<close> numbers, stopping
  at the first that fails; the values assigned and the rest.\<close>

fun scanFloats :: "nat \<Rightarrow> string \<Rightarrow> float list \<times> string" where
  "scanFloats 0 s = ([], s)"
| "scanFloats (Suc n) s =
     (case scanFloat s of
        (None, r) \<Rightarrow> ([], r)
      | (Some x, r) \<Rightarrow> (case scanFloats n r of (xs, r') \<Rightarrow> (x # xs, r')))"

text \<open>
  \<open>fgets(buffer, ...); sscanf(buffer, "%s %s", buffer, buffer)\<close>: the name a directive
  line carries.  Both conversions store into \<open>buffer\<close>, so it ends as the second word
  of the rest of the line if there is one, else as the first, else as the line read;
  and where \<open>fgets\<close> reads nothing the buffer still holds the directive's own token.
\<close>

definition lineName :: "string \<Rightarrow> string \<Rightarrow> string \<times> string" where
  "lineName tok s =
     (case fgets s of
        None \<Rightarrow> (case scanString tok of None \<Rightarrow> (tok, s) | Some (w, r) \<Rightarrow> (w, s))
      | Some (line, rest) \<Rightarrow>
          (case scanString line of
             None \<Rightarrow> (line, rest)
           | Some (w1, r1) \<Rightarrow>
               (case scanString r1 of None \<Rightarrow> (w1, rest) | Some (w2, r2) \<Rightarrow> (w2, rest))))"

text \<open>Every scanning function leaves no more than it was given, and a token or a
  number read leaves less.  The loops below end for that reason.\<close>

lemma scanString_shorter:
  assumes "scanString s = Some (tok, r)"
  shows "length r < length s" "tok \<noteq> []" "\<not> isspace (hd tok)"
proof -
  let ?s' = "dropWhile isspace s"
  from assms have ne: "?s' \<noteq> []" and tok: "tok = takeWhile (\<lambda>c. \<not> isspace c) ?s'"
    and r: "r = dropWhile (\<lambda>c. \<not> isspace c) ?s'"
    by (auto simp: scanString_def Let_def split: if_splits)
  from ne have h: "\<not> isspace (hd ?s')" by (rule hd_dropWhile)
  with ne show "tok \<noteq> []" by (cases ?s') (auto simp: tok)
  from ne h show "\<not> isspace (hd tok)" by (cases ?s') (auto simp: tok)
  from ne h have "length r < length ?s'"
    by (cases ?s') (auto simp: r intro: le_imp_less_Suc length_dropWhile_le)
  also have "\<dots> \<le> length s" by (rule length_dropWhile_le)
  finally show "length r < length s" .
qed

lemma fgets_shorter: "fgets s = Some (line, r) \<Longrightarrow> length r < length s"
  by (cases s) (auto simp: fgets_def Let_def)

lemma skipLine_le: "length (skipLine s) \<le> length s"
  by (auto simp: skipLine_def split: option.splits dest: fgets_shorter less_imp_le)

lemma lineName_le: "length (snd (lineName tok s)) \<le> length s"
  by (auto simp: lineName_def split: option.splits dest: fgets_shorter less_imp_le)

lemma scanInt_le: "length (snd (scanInt s)) \<le> length s"
proof -
  let ?s1 = "dropWhile isspace s"
  have 1: "length ?s1 \<le> length s" by (rule length_dropWhile_le)
  have 2: "length (tl ?s1) \<le> length s" using 1 by simp
  have 3: "length (dropWhile isdigit ?s1) \<le> length s"
    using 1 length_dropWhile_le [of isdigit ?s1] by linarith
  have 4: "length (dropWhile isdigit (tl ?s1)) \<le> length s"
    using 2 length_dropWhile_le [of isdigit "tl ?s1"] by linarith
  from 1 2 3 4 show ?thesis
    by (simp add: scanInt_def Let_def)
qed

lemma scanInt_Some_less: "scanInt s = (Some n, r) \<Longrightarrow> length r < length s"
proof -
  assume a: "scanInt s = (Some n, r)"
  define s1 where "s1 = dropWhile isspace s"
  define s2 where "s2 = (if s1 \<noteq> [] \<and> (hd s1 = CHR ''-'' \<or> hd s1 = CHR ''+'') then tl s1 else s1)"
  from a have ds: "takeWhile isdigit s2 \<noteq> []" and r: "r = dropWhile isdigit s2"
    by (auto simp: scanInt_def Let_def s1_def s2_def split: if_splits)
  from ds have "length (dropWhile isdigit s2) < length s2"
    by (metis length_append takeWhile_dropWhile_id length_greater_0_conv less_add_same_cancel2)
  moreover have "length s2 \<le> length s1" by (simp add: s2_def)
  moreover have "length s1 \<le> length s" unfolding s1_def by (rule length_dropWhile_le)
  ultimately have "length (dropWhile isdigit s2) < length s" by linarith
  then show ?thesis by (simp add: r)
qed

lemma scanFmt_le: "length (snd (scanFmt fmt s)) \<le> length s"
proof (induction fmt s rule: scanFmt.induct)
  case (1 s)
  then show ?case by simp
next
  case (2 fmt s)
  show ?case
  proof (cases "scanInt s")
    case (Pair v r)
    have le: "length r \<le> length s" using scanInt_le [of s] Pair by simp
    show ?thesis
    proof (cases v)
      case None
      with Pair le show ?thesis by simp
    next
      case (Some n)
      have "length (snd (scanFmt fmt r)) \<le> length r"
        by (rule "2.IH" [OF Pair [symmetric] Some])
      with Pair Some le show ?thesis by (cases "scanFmt fmt r") auto
    qed
  qed
next
  case (3 fmt s)
  then show ?case by (cases s) (auto intro: le_SucI)
qed

lemma scanFmt_assigned_less:
  "scanFmt fmt s = (n # ns, r) \<Longrightarrow> length r < length s"
proof (induction fmt s arbitrary: n ns r rule: scanFmt.induct)
  case (1 s)
  then show ?case by simp
next
  case (2 fmt s)
  obtain v r1 where si: "scanInt s = (v, r1)" by (cases "scanInt s")
  with "2.prems" obtain k where v: "v = Some k" by (cases v) auto
  from si v have less: "length r1 < length s" by (simp add: scanInt_Some_less)
  from "2.prems" si v have "r = snd (scanFmt fmt r1)" by (auto split: prod.splits)
  with scanFmt_le [of fmt r1] less show ?case by simp
next
  case (3 fmt s)
  show ?case
  proof (cases s)
    case Nil
    with "3.prems" show ?thesis by simp
  next
    case (Cons c r1)
    with "3.prems" have c: "c = CHR ''/''" and "scanFmt fmt r1 = (n # ns, r)"
      by (auto split: if_splits)
    with "3.IH" [OF Cons] have "length r < length r1" by simp
    with Cons show ?thesis by simp
  qed
qed

lemma scanExponent_le: "length (snd (scanExponent s)) \<le> length s"
proof (cases "s \<noteq> [] \<and> (hd s = CHR ''e'' \<or> hd s = CHR ''E'')")
  case False
  then show ?thesis by (auto simp: scanExponent_def)
next
  case True
  define s1 where "s1 = tl s"
  define s2 where "s2 = (if s1 \<noteq> [] \<and> (hd s1 = CHR ''-'' \<or> hd s1 = CHR ''+'') then tl s1 else s1)"
  have "length (dropWhile isdigit s2) \<le> length s2" by (rule length_dropWhile_le)
  moreover have "length s2 \<le> length s1" by (simp add: s2_def)
  moreover have "length s1 \<le> length s" by (simp add: s1_def)
  ultimately have bound: "length (dropWhile isdigit s2) \<le> length s" by linarith
  have "snd (scanExponent s) = (if takeWhile isdigit s2 = [] then s else dropWhile isdigit s2)"
    using True by (simp add: scanExponent_def Let_def s1_def s2_def)
  with bound show ?thesis by simp
qed

lemma scanFloat_le: "length (snd (scanFloat s)) \<le> length s"
proof -
  define s1 where "s1 = dropWhile isspace s"
  define s2 where "s2 = (if s1 \<noteq> [] \<and> (hd s1 = CHR ''-'' \<or> hd s1 = CHR ''+'') then tl s1 else s1)"
  define s3 where "s3 = dropWhile isdigit s2"
  define s4 where "s4 = (if s3 \<noteq> [] \<and> hd s3 = CHR ''.'' then dropWhile isdigit (tl s3) else s3)"
  have 1: "length s1 \<le> length s" unfolding s1_def by (rule length_dropWhile_le)
  have 2: "length s2 \<le> length s1" by (simp add: s2_def)
  have 3: "length s3 \<le> length s2" unfolding s3_def by (rule length_dropWhile_le)
  have "length (dropWhile isdigit (tl s3)) \<le> length (tl s3)" by (rule length_dropWhile_le)
  moreover have "length (tl s3) \<le> length s3" by simp
  ultimately have "length (dropWhile isdigit (tl s3)) \<le> length s3" by linarith
  then have 4: "length s4 \<le> length s3" by (simp add: s4_def)
  have 5: "length (snd (scanExponent s4)) \<le> length s4" by (rule scanExponent_le)
  from 1 2 3 4 have a: "length s4 \<le> length s" by linarith
  with 5 have b: "length (snd (scanExponent s4)) \<le> length s" by linarith
  have "snd (scanFloat s) = s4 \<or> snd (scanFloat s) = snd (scanExponent s4)"
    by (simp add: scanFloat_def Let_def s1_def s2_def s3_def s4_def split: prod.splits)
  with a b show ?thesis by auto
qed

lemma scanFloats_le: "length (snd (scanFloats n s)) \<le> length s"
proof (induction n arbitrary: s)
  case 0
  then show ?case by simp
next
  case (Suc n)
  obtain v r where sf: "scanFloat s = (v, r)" by (cases "scanFloat s")
  then have le: "length r \<le> length s" using scanFloat_le [of s] by simp
  show ?case
  proof (cases v)
    case None
    with sf le show ?thesis by simp
  next
    case (Some x)
    with sf le Suc [of r] show ?thesis by (cases "scanFloats n r") auto
  qed
qed

section \<open>Model::importMaterials\<close>

text \<open>The files the importer can open: a path has contents or does not exist.\<close>

type_synonym files = "string \<rightharpoonup> string"

text \<open>The first loop: the number of tokens that start with \<open>n\<close>.\<close>

function countMaterials :: "string \<Rightarrow> int \<Rightarrow> int" where
  "countMaterials s numMaterials =
     (case scanString s of
        None \<Rightarrow> numMaterials
      | Some (buffer, r) \<Rightarrow>
          if hd buffer = CHR ''n'' then countMaterials (snd (lineName buffer r)) (numMaterials + 1)
          else countMaterials (skipLine r) numMaterials)"
  by pat_completeness auto
termination
proof (relation "measure (\<lambda>(s, n). length s)")
  show "wf (measure (\<lambda>(s, n). length s))" by simp
next
  fix s :: string and numMaterials :: int and x2 buffer r
  assume a: "scanString s = Some x2" "(buffer, r) = x2"
  then have "length r < length s" using scanString_shorter(1) [of s buffer r] by simp
  with lineName_le [of buffer r]
  show "((snd (lineName buffer r), numMaterials + 1), (s, numMaterials)) \<in> measure (\<lambda>(s, n). length s)"
    by simp
next
  fix s :: string and numMaterials :: int and x2 buffer r
  assume a: "scanString s = Some x2" "(buffer, r) = x2"
  then have "length r < length s" using scanString_shorter(1) [of s buffer r] by simp
  with skipLine_le [of r]
  show "((skipLine r, numMaterials), (s, numMaterials)) \<in> measure (\<lambda>(s, n). length s)"
    by simp
qed

text \<open>The locals of the second loop, with the two members of the model it writes.
  \<open>ms_pMaterial\<close> is the position in \<open>m_materials\<close> that \<open>pMaterial\<close> points to; it starts
  as the null pointer.\<close>

record MaterialScan =
  ms_materials :: "float Material list"
  ms_cache :: "string \<rightharpoonup> int"
  ms_pMaterial :: "nat option"
  ms_illum :: int
  ms_numMaterials :: nat

text \<open>An assignment through \<open>pMaterial\<close>; \<open>None\<close> where the pointer is null.\<close>

definition throughPointer ::
  "MaterialScan \<Rightarrow> (float Material \<Rightarrow> float Material) \<Rightarrow> MaterialScan option" where
  "throughPointer st f =
     (case ms_pMaterial st of
        None \<Rightarrow> None
      | Some k \<Rightarrow> Some (st\<lparr>ms_materials := (ms_materials st)[k := f (ms_materials st ! k)]\<rparr>))"

text \<open>\<open>fscanf(pFile, "%f %f %f", &c[0], &c[1], &c[2]); c[3] = 1.0f\<close> on a colour.\<close>

definition assignColor :: "float list \<Rightarrow> float \<times> float \<times> float \<times> float \<Rightarrow> float \<times> float \<times> float \<times> float" where
  "assignColor xs c =
     (case c of (c0, c1, c2, c3) \<Rightarrow>
        (case xs of
           [] \<Rightarrow> (c0, c1, c2, Some 1)
         | [x] \<Rightarrow> (x, c1, c2, Some 1)
         | [x, y] \<Rightarrow> (x, y, c2, Some 1)
         | x # y # z # _ \<Rightarrow> (x, y, z, Some 1)))"

text \<open>\<open>fscanf(pFile, "%f", &x)\<close>: the new value of \<open>x\<close>.\<close>

definition assignFloat :: "float list \<Rightarrow> float \<Rightarrow> float" where
  "assignFloat xs old = (case xs of [] \<Rightarrow> old | x # _ \<Rightarrow> x)"

text \<open>The second character of the token (\<open>buffer[1]\<close>), the terminating zero for a token
  of one character.\<close>

definition secondChar :: "string \<Rightarrow> char" where
  "secondChar buffer = (if 1 < length buffer then buffer ! 1 else CHR 0x00)"

text \<open>
  One turn of the second loop, after the token \<open>buffer\<close> was read: the \<open>switch\<close> on its
  first character.  The result is the rest of the file and the new state, or \<open>None\<close>
  where the code writes through the null \<open>pMaterial\<close> (a directive before the first
  \<open>newmtl\<close>) or takes \<open>m_materials[numMaterials]\<close> outside the vector.
\<close>

definition materialDirective ::
  "string \<Rightarrow> string \<Rightarrow> MaterialScan \<Rightarrow> (string \<times> MaterialScan) option" where
  "materialDirective buffer r st =
     (if hd buffer = CHR ''N'' then
        (case scanFloats 1 r of (xs, r') \<Rightarrow>
           map_option (Pair r')
             (throughPointer st
                (\<lambda>mat. mat\<lparr>shininess := fdiv (assignFloat xs (shininess mat)) (Some 1000)\<rparr>)))
      else if hd buffer = CHR ''K'' then
        (if secondChar buffer = CHR ''a'' then
           (case scanFloats 3 r of (xs, r') \<Rightarrow>
              map_option (Pair r')
                (throughPointer st (\<lambda>mat. mat\<lparr>ambient := assignColor xs (ambient mat)\<rparr>)))
         else if secondChar buffer = CHR ''d'' then
           (case scanFloats 3 r of (xs, r') \<Rightarrow>
              map_option (Pair r')
                (throughPointer st (\<lambda>mat. mat\<lparr>diffuse := assignColor xs (diffuse mat)\<rparr>)))
         else if secondChar buffer = CHR ''s'' then
           (case scanFloats 3 r of (xs, r') \<Rightarrow>
              map_option (Pair r')
                (throughPointer st (\<lambda>mat. mat\<lparr>specular := assignColor xs (specular mat)\<rparr>)))
         else Some (skipLine r, st))
      else if hd buffer = CHR ''T'' then
        (if secondChar buffer = CHR ''r'' then
           (case scanFloats 1 r of (xs, r') \<Rightarrow>
              map_option (Pair r')
                (throughPointer st
                   (\<lambda>mat. mat\<lparr>alpha := fsub (Some 1) (assignFloat xs (alpha mat))\<rparr>)))
         else Some (skipLine r, st))
      else if hd buffer = CHR ''d'' then
        (case scanFloats 1 r of (xs, r') \<Rightarrow>
           map_option (Pair r')
             (throughPointer st (\<lambda>mat. mat\<lparr>alpha := assignFloat xs (alpha mat)\<rparr>)))
      else if hd buffer = CHR ''i'' then
        (case scanFmt [D] r of (ns, r') \<Rightarrow>
           (let illum = (case ns of [] \<Rightarrow> ms_illum st | n # _ \<Rightarrow> n)
            in if illum = 1 then
                 map_option (Pair r')
                   (throughPointer (st\<lparr>ms_illum := illum\<rparr>)
                      (\<lambda>mat. mat\<lparr>specular := (Some 0, Some 0, Some 0, Some 1)\<rparr>))
               else Some (r', st\<lparr>ms_illum := illum\<rparr>)))
      else if hd buffer = CHR ''m'' then
        (if strstr buffer ''map_Kd'' then
           (case lineName buffer r of (nm, r') \<Rightarrow>
              map_option (Pair r') (throughPointer st (\<lambda>mat. mat\<lparr>colorMapFilename := nm\<rparr>)))
         else if strstr buffer ''map_bump'' then
           (case lineName buffer r of (nm, r') \<Rightarrow>
              map_option (Pair r') (throughPointer st (\<lambda>mat. mat\<lparr>bumpMapFilename := nm\<rparr>)))
         else Some (skipLine r, st))
      else if hd buffer = CHR ''n'' then
        (case lineName buffer r of (nm, r') \<Rightarrow>
           if ms_numMaterials st < length (ms_materials st) then
             Some (r', st\<lparr>ms_pMaterial := Some (ms_numMaterials st),
                         ms_materials := (ms_materials st)
                            [ms_numMaterials st := defaultMaterial\<lparr>name := nm\<rparr>],
                         ms_cache := (ms_cache st)(nm \<mapsto> int (ms_numMaterials st)),
                         ms_numMaterials := Suc (ms_numMaterials st)\<rparr>)
           else None)
      else Some (skipLine r, st))"

lemma materialDirective_le:
  "materialDirective buffer r st = Some (r', st') \<Longrightarrow> length r' \<le> length r"
  using scanFloats_le [of 1 r] scanFloats_le [of 3 r] skipLine_le [of r]
    lineName_le [of buffer r] scanFmt_le [of "[D]" r]
  by (auto simp: materialDirective_def Let_def split: if_splits prod.splits)

function materialsLoop :: "string \<Rightarrow> MaterialScan \<Rightarrow> MaterialScan option" where
  "materialsLoop s st =
     (case scanString s of
        None \<Rightarrow> Some st
      | Some (buffer, r) \<Rightarrow>
          (case materialDirective buffer r st of
             None \<Rightarrow> None
           | Some (r', st') \<Rightarrow> materialsLoop r' st'))"
  by pat_completeness auto
termination
proof (relation "measure (\<lambda>(s, st). length s)")
  show "wf (measure (\<lambda>(s, st). length s))" by simp
next
  fix s :: string and st :: MaterialScan and x2 buffer r x2a r' st'
  assume "scanString s = Some x2" "(buffer, r) = x2"
    "materialDirective buffer r st = Some x2a" "(r', st') = x2a"
  then have "length r < length s" "length r' \<le> length r"
    using scanString_shorter(1) [of s buffer r] materialDirective_le [of buffer r st r' st']
    by simp_all
  then show "((r', st'), (s, st)) \<in> measure (\<lambda>(s, st). length s)" by simp
qed

text \<open>A value-initialised \<open>Material\<close>, as \<open>m_materials.resize\<close> adds.\<close>

definition zeroMaterial :: "float Material" where
  "zeroMaterial =
     \<lparr>ambient = (Some 0, Some 0, Some 0, Some 0), diffuse = (Some 0, Some 0, Some 0, Some 0),
      specular = (Some 0, Some 0, Some 0, Some 0), shininess = Some 0, alpha = Some 0,
      name = [], colorMapFilename = [], bumpMapFilename = []\<rparr>"

text \<open>The result is the value returned and the model, or \<open>None\<close> where the second loop
  has no defined behaviour.\<close>

definition importMaterials :: "files \<Rightarrow> string \<Rightarrow> float Model \<Rightarrow> (bool \<times> float Model) option" where
  "importMaterials fs pszFilename m =
     (case fs pszFilename of
        None \<Rightarrow> Some (False, m)
      | Some content \<Rightarrow>
          (let numMaterials = countMaterials content 0
           in case materialsLoop content
                     \<lparr>ms_materials = resize (nat numMaterials) zeroMaterial (m_materials m),
                      ms_cache = m_materialCache m, ms_pMaterial = None, ms_illum = 0,
                      ms_numMaterials = 0\<rparr> of
                None \<Rightarrow> None
              | Some st \<Rightarrow>
                  Some (True, m\<lparr>m_numberOfMaterials := numMaterials,
                                m_materials := ms_materials st,
                                m_materialCache := ms_cache st\<rparr>)))"

section \<open>Model::importGeometryFirstPass\<close>

text \<open>The \<open>while\<close> loop that counts the further corners of a face: one triangle for
  every corner the face's format reads at least one number of.\<close>

function countFan :: "form \<Rightarrow> string \<Rightarrow> int \<Rightarrow> int \<times> string" where
  "countFan fm s numberOfTriangles =
     (case scanFmt (formatOf fm) s of
        ([], r) \<Rightarrow> (numberOfTriangles, r)
      | (v # vs, r) \<Rightarrow> countFan fm r (numberOfTriangles + 1))"
  by pat_completeness auto
termination
proof (relation "measure (\<lambda>(fm, s, n). length s)")
  show "wf (measure (\<lambda>(fm, s, n). length s))" by simp
next
  fix fm :: form and s :: string and numberOfTriangles :: int and x1 r v vs
  assume "(x1, r) = scanFmt (formatOf fm) s" "x1 = v # vs"
  then have "length r < length s"
    using scanFmt_assigned_less [of "formatOf fm" s v vs r] by simp
  then show "((fm, r, numberOfTriangles + 1), (fm, s, numberOfTriangles))
      \<in> measure (\<lambda>(fm, s, n). length s)"
    by simp
qed

text \<open>The token after \<open>f\<close>, which decides the form: where the file ends instead, the
  buffer still holds the directive's own token.\<close>

definition firstCorner :: "string \<Rightarrow> string \<Rightarrow> string \<times> string" where
  "firstCorner buffer r = (case scanString r of None \<Rightarrow> (buffer, []) | Some (b, r') \<Rightarrow> (b, r'))"

text \<open>
  One turn of the loop of Pass 1, after the token \<open>buffer\<close> was read.  The four
  branches of the case \<open>f\<close> differ in their format only.  The value
  \<open>importMaterials\<close> returns is not looked at.
\<close>

definition firstPassDirective ::
  "files \<Rightarrow> string \<Rightarrow> string \<Rightarrow> float Model \<Rightarrow> (string \<times> float Model) option" where
  "firstPassDirective fs buffer r m =
     (if hd buffer = CHR ''f'' then
        (case firstCorner buffer r of (corner, r1) \<Rightarrow>
           (let fm = faceForm corner;
                r2 = snd (scanFmt (formatOf fm) r1);
                r3 = snd (scanFmt (formatOf fm) r2)
            in case countFan fm r3 (m_numberOfTriangles m + 1) of
                 (n, r4) \<Rightarrow> Some (r4, m\<lparr>m_numberOfTriangles := n\<rparr>)))
      else if hd buffer = CHR ''m'' then
        (case lineName buffer r of (nm, r') \<Rightarrow>
           (case importMaterials fs (m_directoryPath m @ nm) m of
              None \<Rightarrow> None
            | Some (ok, m') \<Rightarrow> Some (r', m')))
      else if hd buffer = CHR ''v'' then
        (if secondChar buffer = CHR 0x00 then
           Some (skipLine r, m\<lparr>m_numberOfVertexCoords := m_numberOfVertexCoords m + 1\<rparr>)
         else if secondChar buffer = CHR ''n'' then
           Some (skipLine r, m\<lparr>m_numberOfNormals := m_numberOfNormals m + 1\<rparr>)
         else if secondChar buffer = CHR ''t'' then
           Some (skipLine r, m\<lparr>m_numberOfTextureCoords := m_numberOfTextureCoords m + 1\<rparr>)
         else Some (r, m))
      else Some (skipLine r, m))"

lemma countFan_le: "length (snd (countFan fm s n)) \<le> length s"
proof (induction fm s n rule: countFan.induct)
  case (1 fm s n)
  obtain vals r where sc: "scanFmt (formatOf fm) s = (vals, r)" by (cases "scanFmt (formatOf fm) s")
  have le: "length r \<le> length s" using scanFmt_le [of "formatOf fm" s] sc by simp
  show ?case
  proof (cases vals)
    case Nil
    with sc le show ?thesis by simp
  next
    case (Cons v vs)
    with "1.IH" [OF sc [symmetric] Cons] sc le show ?thesis by simp
  qed
qed

lemma firstCorner_le: "length (snd (firstCorner buffer r)) \<le> length r"
  by (auto simp: firstCorner_def split: option.splits dest: scanString_shorter(1) less_imp_le)

lemma firstPassDirective_le:
  assumes "firstPassDirective fs buffer r m = Some (r', m')"
  shows "length r' \<le> length r"
proof -
  obtain corner r1 where fc: "firstCorner buffer r = (corner, r1)" by (cases "firstCorner buffer r")
  define fm where "fm = faceForm corner"
  define r2 where "r2 = snd (scanFmt (formatOf fm) r1)"
  define r3 where "r3 = snd (scanFmt (formatOf fm) r2)"
  have "length r1 \<le> length r" using firstCorner_le [of buffer r] fc by simp
  moreover have "length r2 \<le> length r1" unfolding r2_def by (rule scanFmt_le)
  moreover have "length r3 \<le> length r2" unfolding r3_def by (rule scanFmt_le)
  moreover have "length (snd (countFan fm r3 (m_numberOfTriangles m + 1))) \<le> length r3"
    by (rule countFan_le)
  ultimately have face: "length (snd (countFan fm r3 (m_numberOfTriangles m + 1))) \<le> length r"
    by linarith
  show ?thesis
  proof (cases "hd buffer = CHR ''f''")
    case True
    with assms fc have "r' = snd (countFan fm r3 (m_numberOfTriangles m + 1))"
      by (auto simp: firstPassDirective_def Let_def fm_def r2_def r3_def split: prod.splits)
    with face show ?thesis by simp
  next
    case False
    with assms skipLine_le [of r] lineName_le [of buffer r] show ?thesis
      by (auto simp: firstPassDirective_def split: if_splits prod.splits option.splits)
  qed
qed

function firstPassLoop :: "files \<Rightarrow> string \<Rightarrow> float Model \<Rightarrow> float Model option" where
  "firstPassLoop fs s m =
     (case scanString s of
        None \<Rightarrow> Some m
      | Some (buffer, r) \<Rightarrow>
          (case firstPassDirective fs buffer r m of
             None \<Rightarrow> None
           | Some (r', m') \<Rightarrow> firstPassLoop fs r' m'))"
  by pat_completeness auto
termination
proof (relation "measure (\<lambda>(fs, s, m). length s)")
  show "wf (measure (\<lambda>(fs, s, m). length s))" by simp
next
  fix fs :: files and s :: string and m :: "float Model" and x2 buffer r x2a r' m'
  assume "scanString s = Some x2" "(buffer, r) = x2"
    "firstPassDirective fs buffer r m = Some x2a" "(r', m') = x2a"
  then have "length r < length s" "length r' \<le> length r"
    using scanString_shorter(1) [of s buffer r] firstPassDirective_le [of fs buffer r m r' m']
    by simp_all
  then show "((fs, r', m'), (fs, s, m)) \<in> measure (\<lambda>(fs, s, m). length s)" by simp
qed

text \<open>The whole of Pass 1 on the contents of the primary file: the counters are
  reset, the file is scanned, and the buffers are given their sizes.\<close>

definition importGeometryFirstPass :: "files \<Rightarrow> string \<Rightarrow> float Model \<Rightarrow> float Model option" where
  "importGeometryFirstPass fs content m =
     (case firstPassLoop fs content
             (m\<lparr>m_hasTextureCoords := False, m_hasNormals := False,
                m_numberOfVertexCoords := 0, m_numberOfTextureCoords := 0,
                m_numberOfNormals := 0, m_numberOfTriangles := 0\<rparr>) of
        None \<Rightarrow> None
      | Some m1 \<Rightarrow>
          (let m2 = m1\<lparr>m_hasPositions := 0 < m_numberOfVertexCoords m1,
                       m_hasNormals := 0 < m_numberOfNormals m1,
                       m_hasTextureCoords := 0 < m_numberOfTextureCoords m1,
                       m_vertexCoords :=
                         resize (nat (m_numberOfVertexCoords m1 * 3)) (Some 0) (m_vertexCoords m1),
                       m_textureCoords :=
                         resize (nat (m_numberOfTextureCoords m1 * 2)) (Some 0) (m_textureCoords m1),
                       m_normals := resize (nat (m_numberOfNormals m1 * 3)) (Some 0) (m_normals m1),
                       m_indexBuffer := resize (nat (m_numberOfTriangles m1 * 3)) 0 (m_indexBuffer m1),
                       m_attributeBuffer :=
                         resize (nat (m_numberOfTriangles m1)) 0 (m_attributeBuffer m1)\<rparr>
           in Some (if m_numberOfMaterials m2 = 0 then
                      m2\<lparr>m_materials := m_materials m2 @ [defaultMaterial],
                         m_materialCache := (m_materialCache m2)(name defaultMaterial \<mapsto> 0)\<rparr>
                    else m2)))"

section \<open>Model::importGeometrySecondPass\<close>

text \<open>The locals of Pass 2 that live across directives, with the model.\<close>

record SecondPass =
  sp_model :: "float Model"
  sp_numVertices :: int
  sp_numTexCoords :: int
  sp_numNormals :: int
  sp_numTriangles :: int
  sp_activeMaterial :: int

text \<open>A face corner is \<open>(v, vt, vn)\<close>.  Reading one assigns as many of the three as the
  format converted and leaves the others as they were.\<close>

type_synonym corner = "int \<times> int \<times> int"

fun assignCorner :: "form \<Rightarrow> int list \<Rightarrow> corner \<Rightarrow> corner" where
  "assignCorner fm [] c = c"
| "assignCorner PosNormal [a] (v, vt, vn) = (a, vt, vn)"
| "assignCorner PosNormal (a # b # _) (v, vt, vn) = (a, vt, b)"
| "assignCorner PosTexCoordNormal [a] (v, vt, vn) = (a, vt, vn)"
| "assignCorner PosTexCoordNormal [a, b] (v, vt, vn) = (a, b, vn)"
| "assignCorner PosTexCoordNormal (a # b # c # _) (v, vt, vn) = (a, b, c)"
| "assignCorner PosTexCoord [a] (v, vt, vn) = (a, vt, vn)"
| "assignCorner PosTexCoord (a # b # _) (v, vt, vn) = (a, b, vn)"
| "assignCorner Pos (a # _) (v, vt, vn) = (a, vt, vn)"

text \<open>The expression the source resolves every index of a face with:
  \<open>(v < 0) ? v + num - 1 : v - 1\<close>, where \<open>num\<close> is \<open>numVertices\<close>,
  \<open>numTexCoords\<close> or \<open>numNormals\<close>.\<close>

definition resolveIndex :: "int \<Rightarrow> int \<Rightarrow> int" where
  "resolveIndex num ref = (if ref < 0 then ref + num - 1 else ref - 1)"

fun usesTexCoord :: "form \<Rightarrow> bool" where
  "usesTexCoord PosTexCoordNormal = True"
| "usesTexCoord PosTexCoord = True"
| "usesTexCoord fm = False"

fun usesNormal :: "form \<Rightarrow> bool" where
  "usesNormal PosNormal = True"
| "usesNormal PosTexCoordNormal = True"
| "usesNormal fm = False"

definition resolveCorner :: "form \<Rightarrow> SecondPass \<Rightarrow> corner \<Rightarrow> corner" where
  "resolveCorner fm st c =
     (case c of (v, vt, vn) \<Rightarrow>
        (resolveIndex (sp_numVertices st) v,
         if usesTexCoord fm then resolveIndex (sp_numTexCoords st) vt else vt,
         if usesNormal fm then resolveIndex (sp_numNormals st) vn else vn))"

text \<open>Element \<open>i\<close> of a vector, or \<open>None\<close> outside it.\<close>

definition element :: "'a list \<Rightarrow> int \<Rightarrow> 'a option" where
  "element xs i = (if 0 \<le> i \<and> nat i < length xs then Some (xs ! nat i) else None)"

text \<open>
  The vertex the functions \<open>addTrianglePos\<close>, \<open>addTrianglePosNormal\<close>,
  \<open>addTrianglePosTexCoord\<close> and \<open>addTrianglePosTexCoordNormal\<close> build for a corner:
  the position, and the texture coordinate and normal their form has, read from
  the scratch arrays; every other field zero.  \<open>None\<close> where an index is outside
  its array.
\<close>

definition cornerVertex :: "form \<Rightarrow> float Model \<Rightarrow> corner \<Rightarrow> float Vertex option" where
  "cornerVertex fm m c =
     (case c of (v, vt, vn) \<Rightarrow>
        (case (element (m_vertexCoords m) (v * 3), element (m_vertexCoords m) (v * 3 + 1),
               element (m_vertexCoords m) (v * 3 + 2)) of
           (Some x, Some y, Some z) \<Rightarrow>
             (case (if usesTexCoord fm
                    then (element (m_textureCoords m) (vt * 2), element (m_textureCoords m) (vt * 2 + 1))
                    else (Some (Some 0), Some (Some 0))) of
                (Some tu, Some tv) \<Rightarrow>
                  (case (if usesNormal fm
                         then (element (m_normals m) (vn * 3), element (m_normals m) (vn * 3 + 1),
                               element (m_normals m) (vn * 3 + 2))
                         else (Some (Some 0), Some (Some 0), Some (Some 0))) of
                     (Some nx, Some ny, Some nz) \<Rightarrow>
                       Some \<lparr>position = (x, y, z), texCoord = (tu, tv), normal = (nx, ny, nz),
                             tangent = (Some 0, Some 0, Some 0, Some 0),
                             bitangent = (Some 0, Some 0, Some 0)\<rparr>
                   | _ \<Rightarrow> None)
              | _ \<Rightarrow> None)
         | _ \<Rightarrow> None))"

text \<open>One corner of a triangle: the vertex is welded and its index stored at
  \<open>m_indexBuffer[slot]\<close>.\<close>

definition addCorner :: "form \<Rightarrow> int \<Rightarrow> corner \<Rightarrow> float Model \<Rightarrow> float Model option" where
  "addCorner fm slot c m =
     (case cornerVertex fm m c of
        None \<Rightarrow> None
      | Some vertex \<Rightarrow>
          (case addVertex (fst c) vertex m of
             (index, m') \<Rightarrow>
               if 0 \<le> slot \<and> nat slot < length (m_indexBuffer m')
               then Some (m'\<lparr>m_indexBuffer := (m_indexBuffer m')[nat slot := index]\<rparr>)
               else None))"

text \<open>The four \<open>addTriangle...\<close> functions: the material id is stored at
  \<open>m_attributeBuffer[index]\<close> and the three corners at \<open>m_indexBuffer[index * 3 ..]\<close>.\<close>

definition addTriangle ::
  "form \<Rightarrow> int \<Rightarrow> int \<Rightarrow> corner \<Rightarrow> corner \<Rightarrow> corner \<Rightarrow> float Model \<Rightarrow> float Model option" where
  "addTriangle fm index material c0 c1 c2 m =
     (if 0 \<le> index \<and> nat index < length (m_attributeBuffer m) then
        (case addCorner fm (index * 3) c0
                (m\<lparr>m_attributeBuffer := (m_attributeBuffer m)[nat index := material]\<rparr>) of
           None \<Rightarrow> None
         | Some m0 \<Rightarrow>
             (case addCorner fm (index * 3 + 1) c1 m0 of
                None \<Rightarrow> None
              | Some m1 \<Rightarrow> addCorner fm (index * 3 + 2) c2 m1))
      else None)"

text \<open>
  The \<open>while\<close> loop over the further corners of a face.  \<open>c1\<close> is the corner the last
  triangle ended with; it is also what \<open>v[2]\<close>, \<open>vt[2]\<close>, \<open>vn[2]\<close> hold when the next
  corner is read, so a number the format does not convert keeps that (already
  resolved) value, and is resolved again.
\<close>

function emitFan ::
  "form \<Rightarrow> string \<Rightarrow> corner \<Rightarrow> corner \<Rightarrow> SecondPass \<Rightarrow> (string \<times> SecondPass) option" where
  "emitFan fm s c0 c1 st =
     (case scanFmt (formatOf fm) s of
        ([], r) \<Rightarrow> Some (r, st)
      | (v # vs, r) \<Rightarrow>
          (let c2 = resolveCorner fm st (assignCorner fm (v # vs) c1)
           in case addTriangle fm (sp_numTriangles st) (sp_activeMaterial st) c0 c1 c2
                     (sp_model st) of
                None \<Rightarrow> None
              | Some m' \<Rightarrow>
                  emitFan fm r c0 c2
                    (st\<lparr>sp_model := m', sp_numTriangles := sp_numTriangles st + 1\<rparr>)))"
  by pat_completeness auto
termination
proof (relation "measure (\<lambda>(fm, s, c0, c1, st). length s)")
  show "wf (measure (\<lambda>(fm, s, c0, c1, st). length s))" by simp
next
  fix fm :: form and s :: string and c0 c1 :: corner and st :: SecondPass
    and x1 r v vs x m'
  assume "(x1, r) = scanFmt (formatOf fm) s" "x1 = v # vs"
  then have "length r < length s"
    using scanFmt_assigned_less [of "formatOf fm" s v vs r] by simp
  then show "((fm, r, c0, x, st\<lparr>sp_model := m', sp_numTriangles := sp_numTriangles st + 1\<rparr>),
              (fm, s, c0, c1, st)) \<in> measure (\<lambda>(fm, s, c0, c1, st). length s)"
    by simp
qed

text \<open>\<open>fscanf(pFile, "%f %f %f", &a[i], &a[i + 1], ...)\<close>: the numbers read are stored
  from position \<open>i\<close> on; \<open>None\<close> where the \<open>n\<close> places are not all inside the array.\<close>

fun storeFloats :: "float list \<Rightarrow> nat \<Rightarrow> float list \<Rightarrow> float list" where
  "storeFloats [] i a = a"
| "storeFloats (x # xs) i a = storeFloats xs (Suc i) (a[i := x])"

definition readFloats :: "nat \<Rightarrow> string \<Rightarrow> int \<Rightarrow> float list \<Rightarrow> (string \<times> float list) option" where
  "readFloats n r i a =
     (if 0 \<le> i \<and> nat i + n \<le> length a then
        (case scanFloats n r of (xs, r') \<Rightarrow> Some (r', storeFloats xs (nat i) a))
      else None)"

text \<open>One turn of the loop of Pass 2, after the token \<open>buffer\<close> was read.\<close>

definition secondPassDirective ::
  "string \<Rightarrow> string \<Rightarrow> SecondPass \<Rightarrow> (string \<times> SecondPass) option" where
  "secondPassDirective buffer r st =
     (if hd buffer = CHR ''f'' then
        (case firstCorner buffer r of (corner, r1) \<Rightarrow>
           (let fm = faceForm corner;
                v0 = assignCorner fm (fst (scanFmt (formatOf fm) corner)) (0, 0, 0);
                v1 = assignCorner fm (fst (scanFmt (formatOf fm) r1)) (0, 0, 0);
                r2 = snd (scanFmt (formatOf fm) r1);
                v2 = assignCorner fm (fst (scanFmt (formatOf fm) r2)) (0, 0, 0);
                r3 = snd (scanFmt (formatOf fm) r2);
                c0 = resolveCorner fm st v0;
                c1 = resolveCorner fm st v1;
                c2 = resolveCorner fm st v2
            in case addTriangle fm (sp_numTriangles st) (sp_activeMaterial st) c0 c1 c2
                      (sp_model st) of
                 None \<Rightarrow> None
               | Some m' \<Rightarrow>
                   emitFan fm r3 c0 c2
                     (st\<lparr>sp_model := m', sp_numTriangles := sp_numTriangles st + 1\<rparr>)))
      else if hd buffer = CHR ''u'' then
        (case lineName buffer r of (nm, r') \<Rightarrow>
           Some (r', st\<lparr>sp_activeMaterial :=
                          (case m_materialCache (sp_model st) nm of None \<Rightarrow> 0 | Some i \<Rightarrow> i)\<rparr>))
      else if hd buffer = CHR ''v'' then
        (if secondChar buffer = CHR 0x00 then
           (case readFloats 3 r (3 * sp_numVertices st) (m_vertexCoords (sp_model st)) of
              None \<Rightarrow> None
            | Some (r', a) \<Rightarrow>
                Some (r', st\<lparr>sp_model := (sp_model st)\<lparr>m_vertexCoords := a\<rparr>,
                             sp_numVertices := sp_numVertices st + 1\<rparr>))
         else if secondChar buffer = CHR ''n'' then
           (case readFloats 3 r (3 * sp_numNormals st) (m_normals (sp_model st)) of
              None \<Rightarrow> None
            | Some (r', a) \<Rightarrow>
                Some (r', st\<lparr>sp_model := (sp_model st)\<lparr>m_normals := a\<rparr>,
                             sp_numNormals := sp_numNormals st + 1\<rparr>))
         else if secondChar buffer = CHR ''t'' then
           (case readFloats 2 r (2 * sp_numTexCoords st) (m_textureCoords (sp_model st)) of
              None \<Rightarrow> None
            | Some (r', a) \<Rightarrow>
                Some (r', st\<lparr>sp_model := (sp_model st)\<lparr>m_textureCoords := a\<rparr>,
                             sp_numTexCoords := sp_numTexCoords st + 1\<rparr>))
         else Some (r, st))
      else Some (skipLine r, st))"

lemma emitFan_le: "emitFan fm s c0 c1 st = Some (r', st') \<Longrightarrow> length r' \<le> length s"
proof (induction fm s c0 c1 st rule: emitFan.induct)
  case (1 fm s c0 c1 st)
  obtain vals r where sc: "scanFmt (formatOf fm) s = (vals, r)" by (cases "scanFmt (formatOf fm) s")
  have le: "length r \<le> length s" using scanFmt_le [of "formatOf fm" s] sc by simp
  show ?case
  proof (cases vals)
    case Nil
    with sc le "1.prems" show ?thesis by simp
  next
    case (Cons v vs)
    define c2 where "c2 = resolveCorner fm st (assignCorner fm (v # vs) c1)"
    from "1.prems" sc Cons obtain m' where
      add: "addTriangle fm (sp_numTriangles st) (sp_activeMaterial st) c0 c1 c2 (sp_model st) = Some m'"
      and rest: "emitFan fm r c0 c2 (st\<lparr>sp_model := m', sp_numTriangles := sp_numTriangles st + 1\<rparr>)
          = Some (r', st')"
      by (auto simp: Let_def c2_def split: option.splits)
    from "1.IH" [OF sc [symmetric] Cons c2_def add rest] le show ?thesis by simp
  qed
qed

lemma secondPassDirective_le:
  assumes "secondPassDirective buffer r st = Some (r', st')"
  shows "length r' \<le> length r"
proof (cases "hd buffer = CHR ''f''")
  case True
  obtain corner r1 where fc: "firstCorner buffer r = (corner, r1)" by (cases "firstCorner buffer r")
  define fm where "fm = faceForm corner"
  define r2 where "r2 = snd (scanFmt (formatOf fm) r1)"
  define r3 where "r3 = snd (scanFmt (formatOf fm) r2)"
  have 1: "length r1 \<le> length r" using firstCorner_le [of buffer r] fc by simp
  have 2: "length r2 \<le> length r1" unfolding r2_def by (rule scanFmt_le)
  have 3: "length r3 \<le> length r2" unfolding r3_def by (rule scanFmt_le)
  from assms True fc obtain c0 c2 st1 where "emitFan fm r3 c0 c2 st1 = Some (r', st')"
    by (auto simp: secondPassDirective_def Let_def fm_def r2_def r3_def split: option.splits)
  from emitFan_le [OF this] 1 2 3 show ?thesis by linarith
next
  case False
  with assms skipLine_le [of r] lineName_le [of buffer r] scanFloats_le [of 3 r] scanFloats_le [of 2 r]
  show ?thesis
    by (auto simp: secondPassDirective_def readFloats_def split: if_splits prod.splits option.splits)
qed

function secondPassLoop :: "string \<Rightarrow> SecondPass \<Rightarrow> SecondPass option" where
  "secondPassLoop s st =
     (case scanString s of
        None \<Rightarrow> Some st
      | Some (buffer, r) \<Rightarrow>
          (case secondPassDirective buffer r st of
             None \<Rightarrow> None
           | Some (r', st') \<Rightarrow> secondPassLoop r' st'))"
  by pat_completeness auto
termination
proof (relation "measure (\<lambda>(s, st). length s)")
  show "wf (measure (\<lambda>(s, st). length s))" by simp
next
  fix s :: string and st :: SecondPass and x2 buffer r x2a r' st'
  assume "scanString s = Some x2" "(buffer, r) = x2"
    "secondPassDirective buffer r st = Some x2a" "(r', st') = x2a"
  then have "length r < length s" "length r' \<le> length r"
    using scanString_shorter(1) [of s buffer r] secondPassDirective_le [of buffer r st r' st']
    by simp_all
  then show "((r', st'), (s, st)) \<in> measure (\<lambda>(s, st). length s)" by simp
qed

text \<open>Pass 2 on the contents of the primary file, from the locals' initial values.
  \<open>secondPass\<close> keeps the locals the loop ends with; the function of the source
  leaves the model.\<close>

definition secondPass :: "string \<Rightarrow> float Model \<Rightarrow> SecondPass option" where
  "secondPass content m =
     secondPassLoop content
       \<lparr>sp_model = m, sp_numVertices = 0, sp_numTexCoords = 0, sp_numNormals = 0,
        sp_numTriangles = 0, sp_activeMaterial = 0\<rparr>"

definition importGeometrySecondPass :: "string \<Rightarrow> float Model \<Rightarrow> float Model option" where
  "importGeometrySecondPass content m = map_option sp_model (secondPass content m)"

section \<open>The two passes side by side\<close>









section \<open>Model::import\<close>

text \<open>The directory part of the file name: up to and including the last backslash,
  or, without one, the last slash; empty without either.\<close>

definition lastIndexOf :: "char \<Rightarrow> string \<Rightarrow> nat option" where
  "lastIndexOf c s =
     (case filter (\<lambda>i. s ! i = c) (rev [0 ..< length s]) of [] \<Rightarrow> None | i # _ \<Rightarrow> Some i)"

definition directoryOf :: "string \<Rightarrow> string" where
  "directoryOf filename =
     (case lastIndexOf (CHR 0x5C) filename of
        Some offset \<Rightarrow> take (Suc offset) filename
      | None \<Rightarrow>
          (case lastIndexOf (CHR ''/'') filename of
             Some offset \<Rightarrow> take (Suc offset) filename
           | None \<Rightarrow> []))"

text \<open>The stages after the two passes.\<close>

definition setBounds :: "float Model \<Rightarrow> float Model" where
  "setBounds m =
     (case bounds (m_vertexBuffer m) of
        (center, width, height, len, radius) \<Rightarrow>
          m\<lparr>m_center := center, m_width := width, m_height := height, m_length := len,
            m_radius := radius\<rparr>)"

definition hasBumpMap :: "float Model \<Rightarrow> bool" where
  "hasBumpMap m =
     list_ex (\<lambda>mat. bumpMapFilename mat \<noteq> []) (take (nat (m_numberOfMaterials m)) (m_materials m))"

text \<open>
  \<open>import\<close>: the value returned with the model the call leaves, or \<open>None\<close> where a stage
  has no defined behaviour.  \<open>fopen\<close> fails on a path that has no contents.
\<close>

definition importModel :: "files \<Rightarrow> string \<Rightarrow> bool \<Rightarrow> float Model \<Rightarrow> (bool \<times> float Model) option" where
  "importModel fs pszFilename rebuildNormals m =
     (case fs pszFilename of
        None \<Rightarrow> Some (False, m)
      | Some content \<Rightarrow>
          (case importGeometryFirstPass fs content (m\<lparr>m_directoryPath := directoryOf pszFilename\<rparr>) of
             None \<Rightarrow> None
           | Some m1 \<Rightarrow>
               (case importGeometrySecondPass content m1 of
                  None \<Rightarrow> None
                | Some m2 \<Rightarrow>
                    (case buildMeshes m2 of
                       None \<Rightarrow> None
                     | Some m3 \<Rightarrow>
                         (case (if rebuildNormals \<or> \<not> m_hasNormals (setBounds m3)
                                then generateNormals (setBounds m3) else Some (setBounds m3)) of
                            None \<Rightarrow> None
                          | Some m4 \<Rightarrow>
                              (if hasBumpMap m4
                               then map_option (Pair True) (generateTangents m4)
                               else Some (True, m4)))))))"

section \<open>Example inputs\<close>

text \<open>Three records for one source position that differ in the texture coordinate,
  and the welder state after the first two were added for source index 7.\<close>

definition exA :: "float Vertex" where "exA = vertexAt 1 2 3"
definition exB :: "float Vertex" where "exB = (vertexAt 1 2 3)\<lparr>texCoord := (Some 1, Some 0)\<rparr>"
definition exC :: "float Vertex" where "exC = (vertexAt 1 2 3)\<lparr>texCoord := (Some 0, Some 1)\<rparr>"
definition exWelded :: "float Model" where
  "exWelded = snd (addVertices [(7, exA), (7, exB)] (emptyModel (Some 0)))"


text \<open>Four triangles with materials 0, 0, 1, 0, the second material half transparent.\<close>

definition exBatches :: "float Model" where
  "exBatches =
     (emptyModel (Some 0))
       \<lparr>m_numberOfTriangles := 4, m_numberOfMaterials := 2,
        m_materials := [defaultMaterial, defaultMaterial\<lparr>alpha := Some (1 / 2), name := ''glass''\<rparr>],
        m_attributeBuffer := [0, 0, 1, 0]\<rparr>"

text \<open>The model Pass 2 builds from three positions and the face \<open>f 1 2 3\<close>.\<close>

definition singleTriangle ::
  "real \<times> real \<times> real \<Rightarrow> real \<times> real \<times> real \<Rightarrow> real \<times> real \<times> real \<Rightarrow> float Model" where
  "singleTriangle p0 p1 p2 =
     (emptyModel (Some 0))
       \<lparr>m_hasPositions := True, m_numberOfVertexCoords := 3, m_numberOfTriangles := 1,
        m_vertexBuffer := [case p0 of (x, y, z) \<Rightarrow> vertexAt x y z,
                           case p1 of (x, y, z) \<Rightarrow> vertexAt x y z,
                           case p2 of (x, y, z) \<Rightarrow> vertexAt x y z],
        m_indexBuffer := [0, 1, 2], m_attributeBuffer := [0]\<rparr>"

text \<open>The cross product of the two edges from the first corner, in real numbers.\<close>

definition faceNormal ::
  "real \<times> real \<times> real \<Rightarrow> real \<times> real \<times> real \<Rightarrow> real \<times> real \<times> real \<Rightarrow> real \<times> real \<times> real" where
  "faceNormal p0 p1 p2 =
     (case p0 of (x0, y0, z0) \<Rightarrow> case p1 of (x1, y1, z1) \<Rightarrow> case p2 of (x2, y2, z2) \<Rightarrow>
        ((y1 - y0) * (z2 - z0) - (z1 - z0) * (y2 - y0),
         (z1 - z0) * (x2 - x0) - (x1 - x0) * (z2 - z0),
         (x1 - x0) * (y2 - y0) - (y1 - y0) * (x2 - x0)))"


text \<open>The single-triangle model of the scenario.\<close>

definition exTriangle :: "float Model" where
  "exTriangle = singleTriangle (0, 0, 0) (1, 0, 0) (0, 1, 0)"

text \<open>Ten positions, the \<open>k\<close>-th at \<open>x = k\<close>, and a face that names the last three by
  negative indices.\<close>

definition exTenPositions :: string where
  "exTenPositions =
     ''v 1 0 0\<newline>v 2 0 0\<newline>v 3 0 0\<newline>v 4 0 0\<newline>v 5 0 0\<newline>v 6 0 0\<newline>v 7 0 0\<newline>v 8 0 0\<newline>v 9 0 0\<newline>v 10 0 0\<newline>f -1 -2 -3\<newline>''"

text \<open>A material library with the two transparency conventions, and the state of the
  loader's second loop while the first material of a one-material library is filled.\<close>

definition exLibrary :: string where
  "exLibrary = ''newmtl a\<newline>Tr 0.3\<newline>newmtl b\<newline>d 0.7\<newline>Ns 500\<newline>''"

definition exFilling :: MaterialScan where
  "exFilling =
     \<lparr>ms_materials = [defaultMaterial\<lparr>name := ''a''\<rparr>], ms_cache = [''a'' \<mapsto> 0],
      ms_pMaterial = Some 0, ms_illum = 0, ms_numMaterials = 1\<rparr>"

text \<open>A directory that holds one geometry file, which names a material library that
  is not there.\<close>

definition exFiles :: files where
  "exFiles =
     [''tri.obj'' \<mapsto> ''mtllib missing.mtl\<newline>v 0 0 0\<newline>v 1 0 0\<newline>v 0 1 0\<newline>f 1 2 3\<newline>'']"


text \<open>A model with the given normal on every vertex, as \<open>generateNormals\<close> leaves it.\<close>

definition withNormals :: "float3 \<Rightarrow> float Model \<Rightarrow> float Model" where
  "withNormals n m =
     m\<lparr>m_vertexBuffer := map (\<lambda>v. v\<lparr>normal := n\<rparr>) (m_vertexBuffer m), m_hasNormals := True\<rparr>"

text \<open>The single triangle of the scenario with its generated normals, and a triangle in
  the plane \<open>x = 0\<close> with its generated normals.  Neither has texture coordinates.\<close>

definition exLit :: "float Model" where
  "exLit = withNormals (Some 0, Some 0, Some 1) exTriangle"

definition exSideways :: "float Model" where
  "exSideways = withNormals (Some 1, Some 0, Some 0) (singleTriangle (0, 0, 0) (0, 1, 0) (0, 0, 1))"

section \<open>Properties of reverseWinding\<close>








section \<open>Properties of the vertex welder\<close>

lemma find_append_Some:
  "find P xs = Some i \<Longrightarrow> find P (xs @ ys) = Some i"
  by (induction xs) (auto split: if_splits)

lemma find_cong_set:
  "(\<And>x. x \<in> set xs \<Longrightarrow> P x = Q x) \<Longrightarrow> find P xs = find Q xs"
  by (induction xs) auto

lemma find_append_None:
  "find P xs = None \<Longrightarrow> find P (xs @ ys) = find P ys"
  by (induction xs) (auto split: if_splits)

lemma find_first_match:
  "\<forall>j \<in> set before. \<not> P j \<Longrightarrow> P i \<Longrightarrow> find P (before @ i # rest) = Some i"
  by (induction before) auto

lemma find_None_all: "find P xs = None \<longleftrightarrow> (\<forall>x \<in> set xs. \<not> P x)"
  by (induction xs) auto

lemma bucket_in_range:
  "cacheInv m \<Longrightarrow> i \<in> set (bucket m h) \<Longrightarrow> 0 \<le> i \<and> nat i < length (m_vertexBuffer m)"
proof -
  assume inv: "cacheInv m" and i: "i \<in> set (bucket m h)"
  then obtain vs where vs: "m_vertexCache m h = Some vs" and "i \<in> set vs"
    by (cases "m_vertexCache m h") (auto simp: bucket_def)
  with inv have "0 \<le> i \<and> i < int (length (m_vertexBuffer m))"
    unfolding cacheInv_def by blast
  then show ?thesis by auto
qed

lemma snd_addVertices_Cons:
  "snd (addVertices ((h, v) # calls) m) = snd (addVertices calls (snd (addVertex h v m)))"
  by (simp split: prod.splits)

text \<open>The state a welder call leaves: unchanged on a hit, one vertex appended and its
  index recorded last in the bucket on a miss.\<close>

lemma addVertex_hit:
  "find (\<lambda>j. m_vertexBuffer m ! nat j = v) (bucket m h) = Some i \<Longrightarrow> addVertex h v m = (i, m)"
  by (cases "m_vertexCache m h") (simp_all add: addVertex_def bucket_def)

lemma addVertex_miss:
  assumes "find (\<lambda>j. m_vertexBuffer m ! nat j = v) (bucket m h) = None"
  shows "addVertex h v m =
           (int (length (m_vertexBuffer m)),
            m\<lparr>m_vertexBuffer := m_vertexBuffer m @ [v],
              m_vertexCache := (m_vertexCache m)(h \<mapsto> bucket m h @ [int (length (m_vertexBuffer m))])\<rparr>)"
  using assms by (cases "m_vertexCache m h") (simp_all add: addVertex_def bucket_def Let_def)

lemma cacheInv_append:
  assumes "cacheInv m"
  shows "cacheInv (m\<lparr>m_vertexBuffer := m_vertexBuffer m @ [v],
              m_vertexCache := (m_vertexCache m)(h \<mapsto> bucket m h @ [int (length (m_vertexBuffer m))])\<rparr>)"
proof -
  let ?n = "int (length (m_vertexBuffer m))"
  have old: "0 \<le> i \<and> i < ?n + 1" if "m_vertexCache m k = Some vs" "i \<in> set vs" for k vs i
    using assms that unfolding cacheInv_def by fastforce
  have new: "0 \<le> i \<and> i < ?n + 1" if "i \<in> set (bucket m h @ [?n])" for i
  proof (cases "i = ?n")
    case True
    then show ?thesis by simp
  next
    case False
    with that have "i \<in> set (bucket m h)" by simp
    with bucket_in_range [OF assms] show ?thesis by fastforce
  qed
  show ?thesis
    unfolding cacheInv_def
  proof (intro allI impI ballI)
    fix k vs i
    assume c: "m_vertexCache (m\<lparr>m_vertexBuffer := m_vertexBuffer m @ [v],
              m_vertexCache := (m_vertexCache m)(h \<mapsto> bucket m h @ [?n])\<rparr>) k = Some vs"
      and i: "i \<in> set vs"
    show "0 \<le> i \<and> i < int (length (m_vertexBuffer (m\<lparr>m_vertexBuffer := m_vertexBuffer m @ [v],
              m_vertexCache := (m_vertexCache m)(h \<mapsto> bucket m h @ [?n])\<rparr>)))"
    proof (cases "k = h")
      case True
      with c i new [of i] show ?thesis by auto
    next
      case False
      with c i old [of k vs i] show ?thesis by auto
    qed
  qed
qed

lemma addVertex_cacheInv:
  assumes "cacheInv m"
  shows "cacheInv (snd (addVertex h v m))"
proof (cases "find (\<lambda>j. m_vertexBuffer m ! nat j = v) (bucket m h)")
  case None
  show ?thesis by (simp add: addVertex_miss [OF None] cacheInv_append [OF assms])
next
  case (Some i)
  show ?thesis by (simp add: addVertex_hit [OF Some] assms)
qed

lemma welded_append:
  assumes inv: "cacheInv m" and w: "welded m h v i"
  shows "welded (m\<lparr>m_vertexBuffer := m_vertexBuffer m @ [v'],
              m_vertexCache := (m_vertexCache m)(h' \<mapsto> bucket m h' @ [int (length (m_vertexBuffer m))])\<rparr>) h v i"
proof -
  let ?vb = "m_vertexBuffer m"
  have same: "find (\<lambda>j. (?vb @ [v']) ! nat j = v) (bucket m h) = find (\<lambda>j. ?vb ! nat j = v) (bucket m h)"
    by (rule find_cong_set) (use bucket_in_range [OF inv] in \<open>auto simp: nth_append\<close>)
  show ?thesis
  proof (cases "h' = h")
    case True
    with w same show ?thesis
      by (simp add: welded_def bucket_def find_append_Some split: option.splits)
  next
    case False
    with w same show ?thesis
      by (simp add: welded_def bucket_def split: option.splits)
  qed
qed

lemma addVertex_welded_kept:
  assumes inv: "cacheInv m" and w: "welded m h v i"
  shows "welded (snd (addVertex h' v' m)) h v i"
proof (cases "find (\<lambda>j. m_vertexBuffer m ! nat j = v') (bucket m h')")
  case None
  show ?thesis by (simp add: addVertex_miss [OF None] welded_append [OF inv w])
next
  case (Some k)
  show ?thesis by (simp add: addVertex_hit [OF Some] w)
qed

lemma addVertex_welded_new:
  assumes inv: "cacheInv m"
  shows "welded (snd (addVertex h v m)) h v (fst (addVertex h v m))"
proof (cases "find (\<lambda>j. m_vertexBuffer m ! nat j = v) (bucket m h)")
  case None
  let ?vb = "m_vertexBuffer m"
  have "find (\<lambda>j. (?vb @ [v]) ! nat j = v) (bucket m h) = find (\<lambda>j. ?vb ! nat j = v) (bucket m h)"
    by (rule find_cong_set) (use bucket_in_range [OF inv] in \<open>auto simp: nth_append\<close>)
  with None have "find (\<lambda>j. (?vb @ [v]) ! nat j = v) (bucket m h @ [int (length ?vb)])
      = Some (int (length ?vb))"
    by (simp add: find_append_None)
  then show ?thesis
    by (simp add: addVertex_miss [OF None] welded_def bucket_def)
next
  case (Some i)
  then show ?thesis by (simp add: addVertex_hit [OF Some] welded_def)
qed

lemma addVertices_keep:
  "cacheInv m \<Longrightarrow> welded m h v i \<Longrightarrow>
     cacheInv (snd (addVertices calls m)) \<and> welded (snd (addVertices calls m)) h v i"
proof (induction calls arbitrary: m)
  case Nil
  then show ?case by simp
next
  case (Cons c calls)
  obtain h' v' where c: "c = (h', v')" by (cases c)
  have "cacheInv (snd (addVertex h' v' m))"
    by (rule addVertex_cacheInv [OF Cons.prems(1)])
  moreover have "welded (snd (addVertex h' v' m)) h v i"
    by (rule addVertex_welded_kept [OF Cons.prems])
  ultimately show ?case
    using Cons.IH [of "snd (addVertex h' v' m)"]
    by (simp only: c snd_addVertices_Cons)
qed

text \<open>
  Claim C3.  From any cache that records only positions of the vertex buffer (as the
  empty cache Pass 2 starts from does, and as every call keeps it):
  a call whose record equals none of the vertices recorded for its source index
  appends the record to the vertex buffer and returns the new, so far unused, index;
  a call that finds equal records in the bucket returns the first of them in
  insertion order and changes nothing; and a second call with the same source index
  and the same record, after any calls in between, returns the index the first
  returned.
\<close>

theorem addVertex_welds:
  assumes "cacheInv m"
  shows "((\<forall>j \<in> set (bucket m h). m_vertexBuffer m ! nat j \<noteq> v) \<longrightarrow>
            fst (addVertex h v m) = int (length (m_vertexBuffer m))
            \<and> m_vertexBuffer (snd (addVertex h v m)) = m_vertexBuffer m @ [v]
            \<and> fst (addVertex h v m) \<notin> set (bucket m h))
       \<and> (bucket m h = before @ i # rest \<and> m_vertexBuffer m ! nat i = v
            \<and> (\<forall>j \<in> set before. m_vertexBuffer m ! nat j \<noteq> v) \<longrightarrow>
            addVertex h v m = (i, m))
       \<and> fst (addVertex h v (snd (addVertices calls (snd (addVertex h v m)))))
            = fst (addVertex h v m)
       \<and> cacheInv (snd (addVertex h v m))"
proof (intro conjI impI)
  assume "\<forall>j \<in> set (bucket m h). m_vertexBuffer m ! nat j \<noteq> v"
  then have none: "find (\<lambda>j. m_vertexBuffer m ! nat j = v) (bucket m h) = None"
    by (simp add: find_None_all)
  show "fst (addVertex h v m) = int (length (m_vertexBuffer m))"
    by (simp add: addVertex_miss [OF none])
  show "m_vertexBuffer (snd (addVertex h v m)) = m_vertexBuffer m @ [v]"
    by (simp add: addVertex_miss [OF none])
  have "int (length (m_vertexBuffer m)) \<notin> set (bucket m h)"
    using bucket_in_range [OF assms, of "int (length (m_vertexBuffer m))" h] by auto
  then show "fst (addVertex h v m) \<notin> set (bucket m h)"
    by (simp add: addVertex_miss [OF none])
next
  assume a: "bucket m h = before @ i # rest \<and> m_vertexBuffer m ! nat i = v
           \<and> (\<forall>j \<in> set before. m_vertexBuffer m ! nat j \<noteq> v)"
  then have "find (\<lambda>j. m_vertexBuffer m ! nat j = v) (before @ i # rest) = Some i"
    by (intro find_first_match) auto
  with a show "addVertex h v m = (i, m)"
    by (simp add: addVertex_hit)
next
  let ?m1 = "snd (addVertex h v m)" and ?i = "fst (addVertex h v m)"
  have inv1: "cacheInv ?m1" by (rule addVertex_cacheInv [OF assms])
  have w1: "welded ?m1 h v ?i" by (rule addVertex_welded_new [OF assms])
  from addVertices_keep [OF inv1 w1, of calls]
  have "welded (snd (addVertices calls ?m1)) h v ?i" by simp
  then show "fst (addVertex h v (snd (addVertices calls ?m1))) = ?i"
    by (simp add: welded_def addVertex_hit)
next
  show "cacheInv (snd (addVertex h v m))" by (rule addVertex_cacheInv [OF assms])
qed

lemma exWelded_eq: "exWelded = (emptyModel (Some 0))\<lparr>m_vertexBuffer := [exA, exB], m_vertexCache := [7 \<mapsto> [0, 1]]\<rparr>"
  by (simp add: exWelded_def addVertex_def emptyModel_def exA_def exB_def vertexAt_def)

lemma cacheInv_empty: "cacheInv (emptyModel z)"
  by (simp add: cacheInv_def emptyModel_def)

lemma exWelded_inv: "cacheInv exWelded"
proof -
  have "exWelded = snd (addVertex 7 exB (snd (addVertex 7 exA (emptyModel (Some 0)))))"
    by (simp add: exWelded_def split: prod.splits)
  moreover have "cacheInv (snd (addVertex 7 exB (snd (addVertex 7 exA (emptyModel (Some 0))))))"
    by (intro addVertex_cacheInv cacheInv_empty)
  ultimately show ?thesis by (simp only:)
qed

lemma exABC_distinct: "exA \<noteq> exB" "exA \<noteq> exC" "exB \<noteq> exC"
  by (simp_all add: exA_def exB_def exC_def vertexAt_def)

theorem addVertex_welds_witness:
  "cacheInv exWelded
   \<and> fst (addVertex 7 exC exWelded) = 2
   \<and> m_vertexBuffer (snd (addVertex 7 exC exWelded)) = [exA, exB, exC]
   \<and> addVertex 7 exB exWelded = (1, exWelded)
   \<and> fst (addVertex 7 exC (snd (addVertices [(7, exA), (3, exC)] (snd (addVertex 7 exC exWelded))))) = 2"
proof -
  have b: "bucket exWelded 7 = [0, 1]" "m_vertexBuffer exWelded = [exA, exB]"
    by (simp_all add: exWelded_eq bucket_def)
  have miss: "\<forall>j \<in> set (bucket exWelded 7). m_vertexBuffer exWelded ! nat j \<noteq> exC"
    using exABC_distinct by (simp add: b)
  have hit: "bucket exWelded 7 = [0] @ 1 # [] \<and> m_vertexBuffer exWelded ! nat 1 = exB
      \<and> (\<forall>j \<in> set [0]. m_vertexBuffer exWelded ! nat j \<noteq> exB)"
    using exABC_distinct by (simp add: b)
  from addVertex_welds [OF exWelded_inv, of 7 exC "[0]" 1 "[]" "[(7, exA), (3, exC)]"] miss
  have 1: "fst (addVertex 7 exC exWelded) = 2"
    and 2: "m_vertexBuffer (snd (addVertex 7 exC exWelded)) = [exA, exB, exC]"
    and 3: "fst (addVertex 7 exC (snd (addVertices [(7, exA), (3, exC)] (snd (addVertex 7 exC exWelded))))) = 2"
    by (simp_all add: b)
  from addVertex_welds [OF exWelded_inv, of 7 exB "[0]" 1 "[]" "[]"] hit
  have 4: "addVertex 7 exB exWelded = (1, exWelded)"
    by blast
  from exWelded_inv 1 2 3 4 show ?thesis by simp
qed

section \<open>Properties of buildMeshes\<close>

lemma countMeshes_acc: "countMeshes as mid n = countMeshes as mid 0 + n"
proof (induction as arbitrary: mid n)
  case Nil
  then show ?case by simp
next
  case (Cons a as)
  show ?case
  proof (cases "a = mid")
    case True
    with Cons [of mid n] show ?thesis by simp
  next
    case False
    with Cons [of a "n + 1"] Cons [of a 1] show ?thesis by simp
  qed
qed

lemma countMeshes_runs:
  "countMeshes as mid 0 = int (length (meshRuns i (dropWhile (\<lambda>x. x = mid) as)))"
proof (induction "length as" arbitrary: as mid i rule: less_induct)
  case less
  show ?case
  proof (cases as)
    case Nil
    then show ?thesis by simp
  next
    case (Cons a as')
    show ?thesis
    proof (cases "a = mid")
      case True
      with less [of as' mid i] Cons show ?thesis by simp
    next
      case False
      have "countMeshes as' a 1 = countMeshes as' a 0 + 1"
        by (rule countMeshes_acc)
      with False less [of as' a "Suc i + length (takeWhile (\<lambda>x. x = a) as')"] Cons show ?thesis by simp
    qed
  qed
qed

lemma fillMeshes_run:
  assumes "\<forall>a \<in> set as. 0 \<le> a \<and> nat a < nmat"
    and "zs = replicate (length (meshRuns (i + length (takeWhile (\<lambda>x. x = mid) as))
                  (dropWhile (\<lambda>x. x = mid) as))) zeroMesh"
  shows "fillMeshes nmat as i (done @ cur # zs) (Suc (length done)) mid (Some (length done))
         = Some (done @ cur\<lparr>triangleCount := triangleCount cur + int (length (takeWhile (\<lambda>x. x = mid) as))\<rparr>
                   # meshRuns (i + length (takeWhile (\<lambda>x. x = mid) as)) (dropWhile (\<lambda>x. x = mid) as))"
  using assms
proof (induction as arbitrary: i "done" cur zs mid)
  case Nil
  then show ?case by simp
next
  case (Cons a as)
  show ?case
  proof (cases "a = mid")
    case True
    have valid: "\<forall>a \<in> set as. 0 \<le> a \<and> nat a < nmat" using Cons.prems(1) by simp
    have zs: "zs = replicate (length (meshRuns (Suc i + length (takeWhile (\<lambda>x. x = mid) as))
                  (dropWhile (\<lambda>x. x = mid) as))) zeroMesh"
      using Cons.prems(2) True by simp
    have step: "fillMeshes nmat (a # as) i (done @ cur # zs) (Suc (length done)) mid (Some (length done))
        = fillMeshes nmat as (Suc i) (done @ cur\<lparr>triangleCount := triangleCount cur + 1\<rparr> # zs)
            (Suc (length done)) mid (Some (length done))"
      using True by (simp add: nth_append list_update_append)
    show ?thesis
      unfolding step
      using Cons.IH [OF valid zs, of "done" "cur\<lparr>triangleCount := triangleCount cur + 1\<rparr>"] True
      by (simp add: add.assoc)
  next
    case False
    let ?tw = "takeWhile (\<lambda>x. x = a) as" and ?dw = "dropWhile (\<lambda>x. x = a) as"
    have valid: "\<forall>a \<in> set as. 0 \<le> a \<and> nat a < nmat" and a: "0 \<le> a" "nat a < nmat"
      using Cons.prems(1) by simp_all
    obtain zs' where zs: "zs = zeroMesh # zs'"
      and zs': "zs' = replicate (length (meshRuns (Suc i + length ?tw) ?dw)) zeroMesh"
      using Cons.prems(2) False by simp
    let ?new = "\<lparr>startIndex = int i * 3, triangleCount = 1, pMaterial = Some a\<rparr>"
    have step: "fillMeshes nmat (a # as) i (done @ cur # zs) (Suc (length done)) mid (Some (length done))
        = fillMeshes nmat as (Suc i) ((done @ [cur]) @ ?new # zs')
            (Suc (length (done @ [cur]))) a (Some (length (done @ [cur])))"
      using False a by (simp add: zs nth_append list_update_append zeroMesh_def)
    show ?thesis
      unfolding step
      using Cons.IH [OF valid zs', of "done @ [cur]" ?new] False
      by simp
  qed
qed

lemma fillMeshes_fresh:
  assumes valid: "\<forall>a \<in> set attr. 0 \<le> a \<and> nat a < nmat"
  shows "fillMeshes nmat attr 0 (replicate (nat (countMeshes attr (-1) 0)) zeroMesh) 0 (-1) None
         = Some (meshRuns 0 attr)"
proof (cases attr)
  case Nil
  then show ?thesis by simp
next
  case (Cons a as)
  let ?tw = "takeWhile (\<lambda>x. x = a) as" and ?dw = "dropWhile (\<lambda>x. x = a) as"
  let ?zs = "replicate (length (meshRuns (Suc 0 + length ?tw) ?dw)) zeroMesh"
  let ?new = "\<lparr>startIndex = 0, triangleCount = 1, pMaterial = Some a\<rparr>"
  from valid Cons have a: "0 \<le> a" "nat a < nmat" "a \<noteq> - 1"
    and valid': "\<forall>a \<in> set as. 0 \<le> a \<and> nat a < nmat" by auto
  have "countMeshes attr (-1) 0 = countMeshes as a 0 + 1"
    using a countMeshes_acc [of as a 1] by (simp add: Cons)
  also have "\<dots> = int (length (meshRuns (Suc 0 + length ?tw) ?dw)) + 1"
    by (simp add: countMeshes_runs [of as a "Suc 0 + length ?tw"])
  finally have n: "replicate (nat (countMeshes attr (-1) 0)) zeroMesh = zeroMesh # ?zs"
    by (simp add: nat_add_distrib replicate_add)
  have step: "fillMeshes nmat attr 0 (zeroMesh # ?zs) 0 (-1) None
      = fillMeshes nmat as (Suc 0) ([] @ ?new # ?zs) (Suc (length ([] :: Mesh list))) a
          (Some (length ([] :: Mesh list)))"
    using a by (simp add: Cons zeroMesh_def)
  have zs: "?zs = replicate (length (meshRuns (Suc 0 + length ?tw) ?dw)) zeroMesh" by simp
  show ?thesis
    unfolding n step
    using fillMeshes_run [OF valid' zs, of "[]" ?new]
    by (simp add: Cons)
qed

lemma trianglesOf_run:
  "trianglesOf \<lparr>startIndex = int i * 3, triangleCount = int c, pMaterial = p\<rparr> = [i ..< i + c]"
  by (simp add: trianglesOf_def)

lemma meshRuns_cover:
  "concat (map trianglesOf (meshRuns i as)) = [i ..< i + length as]"
proof (induction i as rule: meshRuns.induct)
  case (1 i)
  then show ?case by simp
next
  case (2 i a as)
  let ?tw = "takeWhile (\<lambda>x. x = a) as" and ?dw = "dropWhile (\<lambda>x. x = a) as"
  have len: "length as = length ?tw + length ?dw"
    by (metis length_append takeWhile_dropWhile_id)
  have first: "trianglesOf \<lparr>startIndex = int i * 3, triangleCount = 1 + int (length ?tw), pMaterial = Some a\<rparr>
      = [i ..< i + Suc (length ?tw)]"
    using trianglesOf_run [of i "Suc (length ?tw)" "Some a"] by (simp add: add.commute)
  have ih: "concat (map trianglesOf (meshRuns (Suc i + length ?tw) ?dw))
      = [i + Suc (length ?tw) ..< (i + Suc (length ?tw)) + length ?dw]"
    using 2 by simp
  have app: "[i ..< (i + Suc (length ?tw)) + length ?dw]
      = [i ..< i + Suc (length ?tw)] @ [i + Suc (length ?tw) ..< (i + Suc (length ?tw)) + length ?dw]"
    by (rule upt_add_eq_append) simp
  have "concat (map trianglesOf (meshRuns i (a # as)))
      = trianglesOf \<lparr>startIndex = int i * 3, triangleCount = 1 + int (length ?tw), pMaterial = Some a\<rparr>
        @ concat (map trianglesOf (meshRuns (Suc i + length ?tw) ?dw))"
    by simp
  also have "\<dots> = [i ..< i + Suc (length ?tw)] @ [i + Suc (length ?tw) ..< (i + Suc (length ?tw)) + length ?dw]"
    by (simp only: first ih)
  also have "\<dots> = [i ..< (i + Suc (length ?tw)) + length ?dw]"
    by (rule app [symmetric])
  also have "(i + Suc (length ?tw)) + length ?dw = i + length (a # as)"
    using len by simp
  finally show ?case .
qed

lemma isMaximalRunI:
  assumes "attr = pre @ replicate c a @ post" "0 < c"
    "pre = [] \<or> last pre \<noteq> a" "post = [] \<or> hd post \<noteq> a"
  shows "isMaximalRun attr \<lparr>startIndex = int (length pre) * 3, triangleCount = int c, pMaterial = Some a\<rparr>"
proof -
  have 1: "take c (drop (length pre) attr) = replicate c a"
    by (simp add: assms(1))
  have 2: "length pre = 0 \<or> attr ! (length pre - 1) \<noteq> a"
  proof (cases "pre = []")
    case True
    then show ?thesis by simp
  next
    case False
    then have "attr ! (length pre - 1) = last pre"
      by (simp add: assms(1) nth_append last_conv_nth)
    with False assms(3) show ?thesis by simp
  qed
  have 3: "length pre + c = length attr \<or> attr ! (length pre + c) \<noteq> a"
    using assms(4) by (auto simp: assms(1) nth_append hd_conv_nth)
  have 4: "length pre + c \<le> length attr" by (simp add: assms(1))
  from 1 2 3 4 assms(2) show ?thesis
    by (simp add: isMaximalRun_def Let_def)
qed

lemma takeWhile_eq_replicate: "takeWhile (\<lambda>x. x = a) as = replicate (length (takeWhile (\<lambda>x. x = a) as)) a"
  by (induction as) auto

lemma meshRuns_maximal:
  assumes "i = length pre" "pre = [] \<or> as = [] \<or> last pre \<noteq> hd as" "mesh \<in> set (meshRuns i as)"
  shows "isMaximalRun (pre @ as) mesh"
  using assms
proof (induction i as arbitrary: pre rule: meshRuns.induct)
  case (1 i)
  then show ?case by simp
next
  case (2 i a as)
  let ?tw = "takeWhile (\<lambda>x. x = a) as" and ?dw = "dropWhile (\<lambda>x. x = a) as"
  let ?c = "Suc (length ?tw)"
  have run: "a # ?tw = replicate ?c a"
    using takeWhile_eq_replicate [where a = a and as = as] by simp
  have split: "pre @ a # as = pre @ replicate ?c a @ ?dw"
    using run by (metis append_Cons takeWhile_dropWhile_id)
  have right: "?dw = [] \<or> hd ?dw \<noteq> a"
    using hd_dropWhile [of "\<lambda>x. x = a" as] by auto
  from "2.prems"(3) consider
      "mesh = \<lparr>startIndex = int (length pre) * 3, triangleCount = int ?c, pMaterial = Some a\<rparr>"
    | "mesh \<in> set (meshRuns (Suc i + length ?tw) ?dw)"
    using "2.prems"(1) by (auto simp: add.commute)
  then show ?case
  proof cases
    case 1
    have "isMaximalRun (pre @ replicate ?c a @ ?dw)
        \<lparr>startIndex = int (length pre) * 3, triangleCount = int ?c, pMaterial = Some a\<rparr>"
      using "2.prems"(2) right by (intro isMaximalRunI) auto
    with 1 split show ?thesis by simp
  next
    case 2
    have left: "pre @ replicate ?c a = [] \<or> ?dw = [] \<or> last (pre @ replicate ?c a) \<noteq> hd ?dw"
      using right by auto
    have len: "Suc i + length ?tw = length (pre @ replicate ?c a)"
      using "2.prems"(1) by simp
    have "isMaximalRun ((pre @ replicate ?c a) @ ?dw) mesh"
      by (rule "2.IH" [OF len left 2])
    with split show ?thesis by simp
  qed
qed

lemma mset_insertSorted: "mset (insertSorted cmp x ys) = add_mset x (mset ys)"
  by (induction ys) auto

lemma mset_stdSort: "mset (stdSort cmp xs) = mset xs"
  by (induction xs) (simp_all add: stdSort_def mset_insertSorted)

lemma set_stdSort: "set (stdSort cmp xs) = set xs"
  by (metis mset_stdSort set_mset_mset)

lemma insertSorted_sorted:
  fixes k :: "'a \<Rightarrow> real"
  assumes "\<forall>y \<in> set ys. cmp y x = (k x < k y)" "sorted_wrt (\<lambda>a b. k b \<le> k a) ys"
  shows "sorted_wrt (\<lambda>a b. k b \<le> k a) (insertSorted cmp x ys)"
  using assms
proof (induction ys)
  case Nil
  then show ?case by simp
next
  case (Cons y ys)
  show ?case
  proof (cases "cmp y x")
    case True
    with Cons.prems have xy: "k x < k y" by simp
    have "set (insertSorted cmp x ys) = insert x (set ys)"
      by (metis mset_insertSorted set_mset_add_mset_insert set_mset_mset)
    with xy Cons.prems(2) have "\<forall>z \<in> set (insertSorted cmp x ys). k z \<le> k y" by simp
    with True Cons show ?thesis by simp
  next
    case False
    with Cons.prems have "k y \<le> k x" by simp
    moreover from Cons.prems(2) have "\<forall>z \<in> set ys. k z \<le> k y" by simp
    ultimately have "\<forall>z \<in> set (y # ys). k z \<le> k x" by fastforce
    with False Cons.prems(2) show ?thesis by simp
  qed
qed

lemma stdSort_sorted:
  fixes k :: "'a \<Rightarrow> real"
  assumes "\<forall>a \<in> set xs. \<forall>b \<in> set xs. cmp a b = (k b < k a)"
  shows "sorted_wrt (\<lambda>a b. k b \<le> k a) (stdSort cmp xs)"
  using assms
proof (induction xs)
  case Nil
  then show ?case by (simp add: stdSort_def)
next
  case (Cons x xs)
  then have "sorted_wrt (\<lambda>a b. k b \<le> k a) (stdSort cmp xs)" by simp
  moreover have "\<forall>y \<in> set (stdSort cmp xs). cmp y x = (k x < k y)"
    using Cons.prems by (simp add: set_stdSort)
  ultimately have "sorted_wrt (\<lambda>a b. k b \<le> k a) (insertSorted cmp x (stdSort cmp xs))"
    by (intro insertSorted_sorted)
  then show ?case by (simp add: stdSort_def)
qed

lemma meshRuns_material:
  "mesh \<in> set (meshRuns i as) \<Longrightarrow> \<exists>a \<in> set as. pMaterial mesh = Some a"
proof (induction i as rule: meshRuns.induct)
  case (1 i)
  then show ?case by simp
next
  case (2 i a as)
  then show ?case
    by (auto dest: set_dropWhileD)
qed

text \<open>
  Claim C5.  On a model that holds no meshes yet (a constructed or destroyed model, as
  \<open>import\<close> is called on), whose attribute buffer holds indices of \<open>m_materials\<close> and
  whose material alphas are numbers, \<open>buildMeshes\<close> returns; every mesh is a maximal
  run of equal material ids with \<open>startIndex = 3 * runStart\<close> and \<open>triangleCount\<close> the
  run's length; the meshes' triangle ranges together hold every triangle exactly
  once; and the list is in order of non-increasing material alpha.
\<close>

theorem buildMeshes_runs:
  assumes fresh: "m_meshes m = []"
    and valid: "\<forall>a \<in> set (m_attributeBuffer m). 0 \<le> a \<and> nat a < length (m_materials m)"
    and num: "\<forall>mat \<in> set (m_materials m). alpha mat \<noteq> None"
  shows "\<exists>m'. buildMeshes m = Some m'
           \<and> m_numberOfMeshes m' = int (length (m_meshes m'))
           \<and> (\<forall>mesh \<in> set (m_meshes m'). isMaximalRun (m_attributeBuffer m) mesh)
           \<and> mset (concat (map trianglesOf (m_meshes m'))) = mset [0 ..< length (m_attributeBuffer m)]
           \<and> nonIncreasingAlpha (m_materials m) (m_meshes m')"
proof -
  let ?attr = "m_attributeBuffer m" and ?mats = "m_materials m"
  let ?runs = "meshRuns 0 ?attr"
  let ?sorted = "stdSort (MeshCompFunc ?mats) ?runs"
  let ?m' = "m\<lparr>m_numberOfMeshes := countMeshes ?attr (-1) 0, m_meshes := ?sorted\<rparr>"
  have nodrop: "dropWhile (\<lambda>x. x = - 1) ?attr = ?attr"
    using valid by (cases ?attr) auto
  have count: "countMeshes ?attr (-1) 0 = int (length ?runs)"
    using countMeshes_runs [of ?attr "- 1" 0] nodrop by simp
  have built: "buildMeshes m = Some ?m'"
    using fillMeshes_fresh [OF valid] by (simp add: buildMeshes_def Let_def fresh resize_def)
  have len: "length ?sorted = length ?runs"
    by (metis mset_stdSort size_mset)
  have runs: "\<forall>mesh \<in> set ?sorted. isMaximalRun ?attr mesh"
    using meshRuns_maximal [of 0 "[]" ?attr] by (simp add: set_stdSort)
  have "mset (concat (map trianglesOf ?sorted)) = mset (concat (map trianglesOf ?runs))"
    by (simp add: mset_concat) (metis mset_map mset_stdSort sum_mset_sum_list)
  then have cover: "mset (concat (map trianglesOf ?sorted)) = mset [0 ..< length ?attr]"
    by (simp add: meshRuns_cover)
  have alpha: "\<exists>x. meshAlpha ?mats mesh = Some x" if "mesh \<in> set ?runs" for mesh
  proof -
    from meshRuns_material [OF that] obtain a where a: "a \<in> set ?attr" "pMaterial mesh = Some a"
      by blast
    with valid have "?mats ! nat a \<in> set ?mats" by simp
    with num a show ?thesis by (simp add: meshAlpha_def)
  qed
  let ?k = "\<lambda>mesh. the (meshAlpha ?mats mesh)"
  have "\<forall>a \<in> set ?runs. \<forall>b \<in> set ?runs. MeshCompFunc ?mats a b = (?k b < ?k a)"
  proof (intro ballI)
    fix a b
    assume "a \<in> set ?runs" "b \<in> set ?runs"
    with alpha obtain x y where "meshAlpha ?mats a = Some x" "meshAlpha ?mats b = Some y"
      by blast
    then show "MeshCompFunc ?mats a b = (?k b < ?k a)"
      by (simp add: MeshCompFunc_def flt_def)
  qed
  then have "sorted_wrt (\<lambda>a b. ?k b \<le> ?k a) ?sorted"
    by (rule stdSort_sorted)
  then have "sorted_wrt (\<lambda>a b. case (meshAlpha ?mats a, meshAlpha ?mats b) of
                          (Some x, Some y) \<Rightarrow> y \<le> x | _ \<Rightarrow> False) ?sorted"
  proof (rule sorted_wrt_mono_rel [rotated])
    fix a b
    assume "a \<in> set ?sorted" "b \<in> set ?sorted" "?k b \<le> ?k a"
    moreover from this alpha obtain x y where "meshAlpha ?mats a = Some x" "meshAlpha ?mats b = Some y"
      unfolding set_stdSort by blast
    ultimately show "case (meshAlpha ?mats a, meshAlpha ?mats b) of
                          (Some x, Some y) \<Rightarrow> y \<le> x | _ \<Rightarrow> False"
      by simp
  qed
  then have order: "nonIncreasingAlpha ?mats ?sorted"
    by (simp add: nonIncreasingAlpha_def)
  from built count len runs cover order show ?thesis by simp
qed

theorem buildMeshes_runs_witness:
  "m_meshes exBatches = []
   \<and> list_all (\<lambda>a. 0 \<le> a \<and> nat a < length (m_materials exBatches)) (m_attributeBuffer exBatches)
   \<and> list_all (\<lambda>mat. alpha mat \<noteq> None) (m_materials exBatches)
   \<and> map_option m_meshes (buildMeshes exBatches)
       = Some [\<lparr>startIndex = 0, triangleCount = 2, pMaterial = Some 0\<rparr>,
               \<lparr>startIndex = 9, triangleCount = 1, pMaterial = Some 0\<rparr>,
               \<lparr>startIndex = 6, triangleCount = 1, pMaterial = Some 1\<rparr>]
   \<and> (\<exists>m'. buildMeshes exBatches = Some m'
           \<and> m_numberOfMeshes m' = int (length (m_meshes m'))
           \<and> list_all (isMaximalRun (m_attributeBuffer exBatches)) (m_meshes m')
           \<and> mset (concat (map trianglesOf (m_meshes m'))) = mset [0 ..< length (m_attributeBuffer exBatches)]
           \<and> nonIncreasingAlpha (m_materials exBatches) (m_meshes m'))"
proof -
  have 1: "m_meshes exBatches = []"
    and 2: "\<forall>a \<in> set (m_attributeBuffer exBatches). 0 \<le> a \<and> nat a < length (m_materials exBatches)"
    and 3: "\<forall>mat \<in> set (m_materials exBatches). alpha mat \<noteq> None"
    by (simp_all add: exBatches_def emptyModel_def defaultMaterial_def del: not_None_eq)
  have 4: "map_option m_meshes (buildMeshes exBatches)
       = Some [\<lparr>startIndex = 0, triangleCount = 2, pMaterial = Some 0\<rparr>,
               \<lparr>startIndex = 9, triangleCount = 1, pMaterial = Some 0\<rparr>,
               \<lparr>startIndex = 6, triangleCount = 1, pMaterial = Some 1\<rparr>]"
    by (simp add: buildMeshes_def exBatches_def emptyModel_def defaultMaterial_def resize_def
        zeroMesh_def stdSort_def MeshCompFunc_def meshAlpha_def flt_def Let_def numeral_3_eq_3)
  from buildMeshes_runs [OF 1 2 3] 1 2 3 4 show ?thesis
    by (simp add: list_all_iff)
qed

section \<open>Properties of generateNormals\<close>






lemma singleTriangle_accumulated:
  "accumulatedNormals (singleTriangle p0 p1 p2)
     = Some (map (\<lambda>v. v\<lparr>normal := (case faceNormal p0 p1 p2 of (a, b, c) \<Rightarrow> (Some a, Some b, Some c))\<rparr>)
          (m_vertexBuffer (singleTriangle p0 p1 p2)))"
  by (cases p0; cases p1; cases p2)
     (simp add: accumulatedNormals_def singleTriangle_def emptyModel_def faceNormal_def
       triangleAt_def accumulateNormal_def vertexAt_def zeroNormal_def addNormal_def
       sub3_def add3_def cross3_def fadd_def fsub_def fmul_def Let_def upt_rec)




section \<open>Properties of generateTangents\<close>

lemma exLit_generated: "generateNormals exTriangle = Some exLit"
proof -
  have acc: "accumulatedNormals exTriangle
      = Some (map (\<lambda>v. v\<lparr>normal := (Some 0, Some 0, Some 1)\<rparr>) (m_vertexBuffer exTriangle))"
    by (simp add: exTriangle_def singleTriangle_accumulated faceNormal_def)
  have one: "normalizeNormal (x\<lparr>normal := (Some 0, Some 0, Some 1)\<rparr>) = x\<lparr>normal := (Some 0, Some 0, Some 1)\<rparr>"
    for x :: "float Vertex"
    by (simp add: normalizeNormal_def dot3_def scale3_def fadd_def fmul_def fdiv_def fsqrt_def)
  show ?thesis
    by (simp add: generateNormals_def acc exLit_def withNormals_def one comp_def)
qed

lemma exSideways_generated:
  "generateNormals (singleTriangle (0, 0, 0) (0, 1, 0) (0, 0, 1)) = Some exSideways"
proof -
  have acc: "accumulatedNormals (singleTriangle (0, 0, 0) (0, 1, 0) (0, 0, 1))
      = Some (map (\<lambda>v. v\<lparr>normal := (Some 1, Some 0, Some 0)\<rparr>)
               (m_vertexBuffer (singleTriangle (0, 0, 0) (0, 1, 0) (0, 0, 1))))"
    by (simp add: singleTriangle_accumulated faceNormal_def)
  have one: "normalizeNormal (x\<lparr>normal := (Some 1, Some 0, Some 0)\<rparr>) = x\<lparr>normal := (Some 1, Some 0, Some 0)\<rparr>"
    for x :: "float Vertex"
    by (simp add: normalizeNormal_def dot3_def scale3_def fadd_def fmul_def fdiv_def fsqrt_def)
  show ?thesis
    by (simp add: generateNormals_def acc exSideways_def withNormals_def one comp_def)
qed











section \<open>Properties of the material library loader\<close>

lemma exLibrary_alphas:
  "map_option (\<lambda>(ok, m). (ok, map name (m_materials m), map alpha (m_materials m),
                            map shininess (m_materials m), m_numberOfMaterials m))
     (importMaterials [''two.mtl'' \<mapsto> exLibrary] ''two.mtl'' (emptyModel (Some 0)))
   = Some (True, [''a'', ''b''], [Some (7 / 10), Some (7 / 10)], [Some 0, Some (1 / 2)], 2)"
  by code_simp

text \<open>
  Claim C7.  While a material is being filled (\<open>pMaterial\<close> points at element \<open>k\<close> of
  the table) and the file goes on with a number \<open>x\<close>: the directive \<open>Ns\<close> stores the
  shininess \<open>x / 1000\<close>, the directive \<open>d\<close> stores the alpha \<open>x\<close>, and the directive \<open>Tr\<close>
  stores the alpha \<open>1 - x\<close>.  A library with \<open>Tr 0.3\<close> in one material and \<open>d 0.7\<close> in
  another is loaded with the alpha \<open>0.7\<close> in both.
\<close>

theorem material_directives:
  assumes "ms_pMaterial st = Some k" "k < length (ms_materials st)"
    and "scanFloats 1 r = ([Some x], r')"
  shows "(\<exists>st'. materialDirective ''Ns'' r st = Some (r', st')
            \<and> ms_materials st' = (ms_materials st)[k := (ms_materials st ! k)\<lparr>shininess := Some (x / 1000)\<rparr>]
            \<and> shininess (ms_materials st' ! k) = Some (x / 1000))
       \<and> (\<exists>st'. materialDirective ''d'' r st = Some (r', st')
            \<and> ms_materials st' = (ms_materials st)[k := (ms_materials st ! k)\<lparr>alpha := Some x\<rparr>]
            \<and> alpha (ms_materials st' ! k) = Some x)
       \<and> (\<exists>st'. materialDirective ''Tr'' r st = Some (r', st')
            \<and> ms_materials st' = (ms_materials st)[k := (ms_materials st ! k)\<lparr>alpha := Some (1 - x)\<rparr>]
            \<and> alpha (ms_materials st' ! k) = Some (1 - x))
       \<and> map_option (map alpha \<circ> m_materials \<circ> snd)
            (importMaterials [''two.mtl'' \<mapsto> exLibrary] ''two.mtl'' (emptyModel (Some 0)))
          = Some [Some (7 / 10), Some (7 / 10)]"
proof (intro conjI)
  show "\<exists>st'. materialDirective ''Ns'' r st = Some (r', st')
            \<and> ms_materials st' = (ms_materials st)[k := (ms_materials st ! k)\<lparr>shininess := Some (x / 1000)\<rparr>]
            \<and> shininess (ms_materials st' ! k) = Some (x / 1000)"
    using assms
    by (simp add: materialDirective_def throughPointer_def assignFloat_def fdiv_def)
  show "\<exists>st'. materialDirective ''d'' r st = Some (r', st')
            \<and> ms_materials st' = (ms_materials st)[k := (ms_materials st ! k)\<lparr>alpha := Some x\<rparr>]
            \<and> alpha (ms_materials st' ! k) = Some x"
    using assms
    by (simp add: materialDirective_def throughPointer_def assignFloat_def)
  show "\<exists>st'. materialDirective ''Tr'' r st = Some (r', st')
            \<and> ms_materials st' = (ms_materials st)[k := (ms_materials st ! k)\<lparr>alpha := Some (1 - x)\<rparr>]
            \<and> alpha (ms_materials st' ! k) = Some (1 - x)"
    using assms
    by (simp add: materialDirective_def throughPointer_def assignFloat_def secondChar_def fsub_def)
  have "map_option (map alpha \<circ> m_materials \<circ> snd)
            (importMaterials [''two.mtl'' \<mapsto> exLibrary] ''two.mtl'' (emptyModel (Some 0)))
      = map_option (\<lambda>(ok, names, alphas, rest). alphas)
          (map_option (\<lambda>(ok, m). (ok, map name (m_materials m), map alpha (m_materials m),
                            map shininess (m_materials m), m_numberOfMaterials m))
     (importMaterials [''two.mtl'' \<mapsto> exLibrary] ''two.mtl'' (emptyModel (Some 0))))"
    by (simp add: option.map_comp comp_def split_def)
  then show "map_option (map alpha \<circ> m_materials \<circ> snd)
            (importMaterials [''two.mtl'' \<mapsto> exLibrary] ''two.mtl'' (emptyModel (Some 0)))
          = Some [Some (7 / 10), Some (7 / 10)]"
    by (simp add: exLibrary_alphas)
qed

theorem material_directives_witness:
  "ms_pMaterial exFilling = Some 0 \<and> 0 < length (ms_materials exFilling)
   \<and> scanFloats 1 '' 0.3\<newline>'' = ([Some (3 / 10)], ''\<newline>'')
   \<and> map_option (map shininess \<circ> ms_materials \<circ> snd) (materialDirective ''Ns'' '' 0.3\<newline>'' exFilling)
       = Some [Some (3 / 10000)]
   \<and> map_option (map alpha \<circ> ms_materials \<circ> snd) (materialDirective ''d'' '' 0.3\<newline>'' exFilling)
       = Some [Some (3 / 10)]
   \<and> map_option (map alpha \<circ> ms_materials \<circ> snd) (materialDirective ''Tr'' '' 0.3\<newline>'' exFilling)
       = Some [Some (7 / 10)]"
proof -
  have 1: "ms_pMaterial exFilling = Some 0" and 2: "0 < length (ms_materials exFilling)"
    by (simp_all add: exFilling_def)
  have 3: "scanFloats 1 '' 0.3\<newline>'' = ([Some (3 / 10)], ''\<newline>'')"
    by (simp add: scanFloat_def scanExponent_def isspace_def isdigit_def digitsValue_def)
  have mats: "ms_materials exFilling = [defaultMaterial\<lparr>name := ''a''\<rparr>]"
    by (simp add: exFilling_def)
  from material_directives [OF 1 2 3] 1 2 3 show ?thesis
    by (auto simp: mats)
qed

section \<open>Properties of the geometry parser\<close>

lemma exTenPositions_welded:
  "map_option (\<lambda>m. (map position (m_vertexBuffer m), m_indexBuffer m,
                       m_vertexCache m 9, m_vertexCache m 8, m_vertexCache m 7, m_vertexCache m 6))
        (case importGeometryFirstPass Map.empty exTenPositions (emptyModel (Some 0)) of
           None \<Rightarrow> None
         | Some m1 \<Rightarrow> importGeometrySecondPass exTenPositions m1)
     = Some ([(Some 9, Some 0, Some 0), (Some 8, Some 0, Some 0), (Some 7, Some 0, Some 0)],
             [0, 1, 2], None, Some [0], Some [1], Some [2])"
  by code_simp

text \<open>
  Claim C1 fails on the code for negative indices.  The source subtracts 1 in both
  branches of \<open>(v < 0) ? v + numVertices - 1 : v - 1\<close>, so a negative reference resolves
  to \<open>count + reference - 1\<close>: \<open>-1\<close> names the element before the last one.  After ten
  positions the face \<open>f -1 -2 -3\<close> resolves to the 0-based indices 8, 7, 6 (the claim:
  9, 8, 7); Pass 2 welds the positions with \<open>x = 9, 8, 7\<close> under the source indices
  8, 7, 6 and none under 9.  In general the reference \<open>-(k + 1)\<close> resolves to the index
  \<open>n - 2 - k\<close>, one below the element it names; a positive index is converted from
  1-based to 0-based.
\<close>

theorem negative_indices_off_by_one:
  "resolveIndex n (- 1 - int k) = n - 2 - int k
   \<and> resolveIndex n (1 + int k) = int k
   \<and> resolveIndex 10 (- 1) = 8 \<and> resolveIndex 10 (- 2) = 7 \<and> resolveIndex 10 (- 3) = 6
   \<and> map_option (\<lambda>m. (map position (m_vertexBuffer m), m_indexBuffer m,
                       m_vertexCache m 9, m_vertexCache m 8, m_vertexCache m 7, m_vertexCache m 6))
        (case importGeometryFirstPass Map.empty exTenPositions (emptyModel (Some 0)) of
           None \<Rightarrow> None
         | Some m1 \<Rightarrow> importGeometrySecondPass exTenPositions m1)
     = Some ([(Some 9, Some 0, Some 0), (Some 8, Some 0, Some 0), (Some 7, Some 0, Some 0)],
             [0, 1, 2], None, Some [0], Some [1], Some [2])"
  using exTenPositions_welded by (simp add: resolveIndex_def)

section \<open>Properties of import\<close>

lemma exFiles_stages:
  "(case importGeometryFirstPass exFiles
           ''mtllib missing.mtl\<newline>v 0 0 0\<newline>v 1 0 0\<newline>v 0 1 0\<newline>f 1 2 3\<newline>''
           ((emptyModel (Some 0))\<lparr>m_directoryPath := directoryOf ''tri.obj''\<rparr>) of
      None \<Rightarrow> False
    | Some m1 \<Rightarrow>
        (case importGeometrySecondPass
                ''mtllib missing.mtl\<newline>v 0 0 0\<newline>v 1 0 0\<newline>v 0 1 0\<newline>f 1 2 3\<newline>'' m1 of
           None \<Rightarrow> False
         | Some m2 \<Rightarrow>
             (case buildMeshes m2 of
                None \<Rightarrow> False
              | Some m3 \<Rightarrow>
                  (case accumulatedNormals (setBounds m3) of
                     None \<Rightarrow> False
                   | Some acc \<Rightarrow>
                       \<not> hasBumpMap (setBounds m3) \<and> \<not> m_hasNormals (setBounds m3)
                       \<and> m_indexBuffer m3 = [0, 1, 2]
                       \<and> map name (m_materials m3) = [''default'']
                       \<and> length acc = 3))))"
  by code_simp

text \<open>
  Claim C2 fails on the code for the material library: \<open>importGeometryFirstPass\<close> calls
  \<open>importMaterials\<close> and drops the value it returns.  For a geometry file that names a
  library that does not exist, \<open>import\<close> returns \<open>true\<close> and leaves a model with the
  triangle and the default material.
\<close>

theorem import_missing_library:
  "exFiles ''missing.mtl'' = None
   \<and> map_option (\<lambda>(ok, m). (ok, m_indexBuffer m, map name (m_materials m), length (m_vertexBuffer m)))
        (importModel exFiles ''tri.obj'' False (emptyModel (Some 0)))
     = Some (True, [0, 1, 2], [''default''], 3)"
proof -
  let ?content = "''mtllib missing.mtl\<newline>v 0 0 0\<newline>v 1 0 0\<newline>v 0 1 0\<newline>f 1 2 3\<newline>''"
  from exFiles_stages obtain m1 m2 m3 acc where
    1: "importGeometryFirstPass exFiles ?content
          ((emptyModel (Some 0))\<lparr>m_directoryPath := directoryOf ''tri.obj''\<rparr>) = Some m1"
    and 2: "importGeometrySecondPass ?content m1 = Some m2"
    and 3: "buildMeshes m2 = Some m3"
    and 4: "accumulatedNormals (setBounds m3) = Some acc"
    and 5: "\<not> hasBumpMap (setBounds m3)" "\<not> m_hasNormals (setBounds m3)"
    and 6: "m_indexBuffer m3 = [0, 1, 2]" "map name (m_materials m3) = [''default'']" "length acc = 3"
    by (auto split: option.splits)
  have same: "m_indexBuffer (setBounds m3) = m_indexBuffer m3"
    "m_materials (setBounds m3) = m_materials m3"
    by (simp_all add: setBounds_def split: prod.splits)
  have gen: "generateNormals (setBounds m3)
      = Some ((setBounds m3)\<lparr>m_vertexBuffer := map normalizeNormal acc, m_hasNormals := True\<rparr>)"
    by (simp add: generateNormals_def 4)
  have nobump: "\<not> hasBumpMap ((setBounds m3)\<lparr>m_vertexBuffer := map normalizeNormal acc, m_hasNormals := True\<rparr>)"
    using 5(1) by (simp add: hasBumpMap_def)
  have files: "exFiles ''tri.obj'' = Some ?content" "exFiles ''missing.mtl'' = None"
    by (simp_all add: exFiles_def)
  have "importModel exFiles ''tri.obj'' False (emptyModel (Some 0))
      = Some (True, (setBounds m3)\<lparr>m_vertexBuffer := map normalizeNormal acc, m_hasNormals := True\<rparr>)"
    using nobump by (simp add: importModel_def files 1 2 3 5(2) gen)
  with files(2) 6 same show ?thesis by simp
qed

lemma snd_lineName: "snd (lineName tok s) = skipLine s"
  by (simp add: lineName_def skipLine_def split: option.splits prod.splits)

text \<open>
  Claim C2 as amended.  \<open>import\<close> returns \<open>false\<close> when the primary geometry file cannot
  be opened, and the model is then as it was before the call.  When a material
  library cannot be opened, \<open>importMaterials\<close> returns \<open>false\<close> and leaves the model as it
  was, and Pass 1 goes on with the line after the directive: the import does not
  fail on that account.
\<close>

theorem import_unopened:
  "(fs pszFilename = None \<longrightarrow> importModel fs pszFilename rebuildNormals m = Some (False, m))
   \<and> (fs path = None \<longrightarrow> importMaterials fs path m = Some (False, m))
   \<and> (hd buffer = CHR ''m'' \<and> fs (m_directoryPath m @ fst (lineName buffer r)) = None \<longrightarrow>
        firstPassDirective fs buffer r m = Some (skipLine r, m))"
proof (intro conjI impI)
  assume "fs pszFilename = None"
  then show "importModel fs pszFilename rebuildNormals m = Some (False, m)"
    by (simp add: importModel_def)
next
  assume "fs path = None"
  then show "importMaterials fs path m = Some (False, m)"
    by (simp add: importMaterials_def)
next
  assume a: "hd buffer = CHR ''m'' \<and> fs (m_directoryPath m @ fst (lineName buffer r)) = None"
  obtain nm r' where ln: "lineName buffer r = (nm, r')" by (cases "lineName buffer r")
  with snd_lineName [of buffer r] have r': "r' = skipLine r" by simp
  from a ln have "importMaterials fs (m_directoryPath m @ nm) m = Some (False, m)"
    by (simp add: importMaterials_def)
  with a ln r' show "firstPassDirective fs buffer r m = Some (skipLine r, m)"
    by (simp add: firstPassDirective_def)
qed

theorem import_unopened_witness:
  "exFiles ''nothing.obj'' = None
   \<and> importModel exFiles ''nothing.obj'' False exTriangle = Some (False, exTriangle)
   \<and> exFiles ''missing.mtl'' = None
   \<and> importMaterials exFiles ''missing.mtl'' exTriangle = Some (False, exTriangle)
   \<and> hd ''mtllib'' = CHR ''m''
   \<and> exFiles (m_directoryPath exTriangle @ fst (lineName ''mtllib'' '' missing.mtl\<newline>v 0 0 0'')) = None
   \<and> firstPassDirective exFiles ''mtllib'' '' missing.mtl\<newline>v 0 0 0'' exTriangle
       = Some (''v 0 0 0'', exTriangle)"
proof -
  have 1: "exFiles ''nothing.obj'' = None" and 2: "exFiles ''missing.mtl'' = None"
    by (simp_all add: exFiles_def)
  have ln: "lineName ''mtllib'' '' missing.mtl\<newline>v 0 0 0'' = (''missing.mtl'', ''v 0 0 0'')"
    by (simp add: lineName_def fgets_def scanString_def isspace_def)
  have dir: "m_directoryPath exTriangle = []"
    by (simp add: exTriangle_def singleTriangle_def emptyModel_def)
  have 3: "hd ''mtllib'' = CHR ''m''
      \<and> exFiles (m_directoryPath exTriangle @ fst (lineName ''mtllib'' '' missing.mtl\<newline>v 0 0 0'')) = None"
    by (simp add: ln dir 2)
  have sk: "skipLine '' missing.mtl\<newline>v 0 0 0'' = ''v 0 0 0''"
    by (simp add: skipLine_def fgets_def)
  from import_unopened [of exFiles "''nothing.obj''" False exTriangle "''missing.mtl''"
      "''mtllib''" "'' missing.mtl\<newline>v 0 0 0''"] 1 2 3 sk
  show ?thesis by simp
qed

section \<open>Properties of the two passes\<close>





















section \<open>Properties of bounds\<close>

text \<open>
  Claim C6 fails on the code.  The running maxima start at
  \<open>std::numeric_limits<float>::min()\<close>, the smallest positive float, not at the lowest
  float, so a coordinate that is negative on every vertex never replaces it.  For
  the buffer holding the single vertex \<open>(-1, -1, -1)\<close> the code returns the maxima
  \<open>2\<^sup>-\<^sup>1\<^sup>2\<^sup>6\<close> (not \<open>-1\<close>), and from them a centre and extents that are not those of
  the vertex (the claim: centre \<open>(-1, -1, -1)\<close>, extents and radius \<open>0\<close>).
\<close>

theorem bounds_negative_vertex:
  "boundsMinMax [vertexAt (-1) (-1) (-1)]
     = (Some (-1), Some (1 / 2 ^ 126), Some (-1), Some (1 / 2 ^ 126), Some (-1), Some (1 / 2 ^ 126))
   \<and> bounds [vertexAt (-1) (-1) (-1)]
     = ((Some ((1 / 2 ^ 126 - 1) / 2), Some ((1 / 2 ^ 126 - 1) / 2), Some ((1 / 2 ^ 126 - 1) / 2)),
        Some (1 / 2 ^ 126 + 1), Some (1 / 2 ^ 126 + 1), Some (1 / 2 ^ 126 + 1),
        Some (1 / 2 ^ 126 + 1))"
  by (simp add: bounds_def boundsMinMax_def boundsStep_def vertexAt_def FLT_MIN_def FLT_MAX_def
      flt_def fadd_def fsub_def fdiv_def fmax_def Let_def)

end
